theory Spec2Isabelle
  imports Main "HOL-Library.Word"
begin

section \<open>The database object of src/core/Database.cpp\<close>

text \<open>
  The development embeds the persistence and key-lifecycle state machine of
  \<^verbatim>\<open>Database\<close>: the member functions become functions from a record of the
  object's members to the updated record. Everything the object does to the world
  outside its members (signals, queued invocations, calls on the file watcher, calls on
  the file system that change it) is appended to the member \<open>effects\<close>, in program
  order. The build modelled is the release build on a platform other than Windows:
  \<^verbatim>\<open>Q_ASSERT\<close> is a no-op and the \<^verbatim>\<open>Q_OS_WIN\<close> blocks are absent.
  Slots that only refresh the derived views (\<^verbatim>\<open>updateCommonUsernames\<close>,
  \<^verbatim>\<open>updateTagList\<close>) read the group tree, which lives in another file, and are
  left out; the signals that trigger them are recorded.
\<close>

subsection \<open>Qt values\<close>

type_synonym QByteArray = "8 word list"
type_synonym QString = string
type_synonym QUuid = "128 word"

text \<open>
  A \<^verbatim>\<open>const QString&\<close> that the code tests with \<^verbatim>\<open>isNull()\<close> is a
  \<open>QString option\<close>: \<open>None\<close> is the null string, \<open>Some []\<close> the empty one.
\<close>

definition QString_isNull :: "QString option \<Rightarrow> bool" where
  "QString_isNull s = (s = None)"

definition QString_isEmpty :: "QString option \<Rightarrow> bool" where
  "QString_isEmpty s = (case s of None \<Rightarrow> True | Some t \<Rightarrow> t = [])"

text \<open>\<^verbatim>\<open>QByteArray::toHex\<close>: two lower-case hexadecimal digits for each byte.\<close>

definition hexDigit :: "nat \<Rightarrow> char" where
  "hexDigit n = ''0123456789abcdef'' ! (n mod 16)"

definition toHex :: "QByteArray \<Rightarrow> QString" where
  "toHex bs = concat (map (\<lambda>b. [hexDigit (unat b div 16), hexDigit (unat b mod 16)]) bs)"

text \<open>
  \<^verbatim>\<open>QByteArray::fromHex\<close> on a string of pairs of hexadecimal digits, the decoder by
  which a hex-encoded value is read back: \<open>hexValue\<close> is the value of a digit.
\<close>

definition hexValue :: "char \<Rightarrow> nat" where
  "hexValue c = length (takeWhile (\<lambda>x. x \<noteq> c) ''0123456789abcdef'')"

fun fromHex :: "QString \<Rightarrow> QByteArray" where
  "fromHex (a # b # cs) = word_of_nat (16 * hexValue a + hexValue b) # fromHex cs"
| "fromHex cs = []"

subsection \<open>Collaborators declared outside Database.cpp\<close>

text \<open>
  Modelled from the spec: \<^verbatim>\<open>PasswordKey\<close> (keys/PasswordKey.h) is the holder of raw
  key bytes. A holder is its raw bytes; a freshly constructed holder, and one that was
  zeroed, hold no bytes.
\<close>

type_synonym PasswordKey = QByteArray

definition PasswordKey_new :: PasswordKey where
  "PasswordKey_new = []"

definition setRawKey :: "QByteArray \<Rightarrow> PasswordKey \<Rightarrow> PasswordKey" where
  "setRawKey data k = data"

definition rawKey :: "PasswordKey \<Rightarrow> QByteArray" where
  "rawKey k = k"

text \<open>
  Modelled from the spec: \<^verbatim>\<open>CompositeKey\<close> (keys/CompositeKey.h) combines key
  factors; it is empty when it has no factor of either kind. Its \<^verbatim>\<open>transform\<close> is
  the KDF and stays a parameter \<open>transform\<close> of the functions below: \<open>None\<close> is a
  failed transformation.
\<close>

record CompositeKey =
  m_keys :: "QByteArray list"
  m_challengeResponseKeys :: "QByteArray list"

definition CompositeKey_isEmpty :: "CompositeKey \<Rightarrow> bool" where
  "CompositeKey_isEmpty k = (m_keys k = [] \<and> m_challengeResponseKeys k = [])"

definition CompositeKey_create :: CompositeKey where
  "CompositeKey_create = \<lparr>m_keys = [], m_challengeResponseKeys = []\<rparr>"

text \<open>
  Modelled from the spec: the process-wide random generator (crypto/Random.h). One call
  is answered from a raw draw \<open>draw\<close> and a supply of random bytes
  \<open>byteSupply\<close>. \<open>randomUIntRange lo hi\<close> is a value of the closed interval from
  \<open>lo\<close> to \<open>hi\<close>, chosen uniformly as the spec words it: the lower bound plus the
  draw reduced modulo the number of values of the interval, so that equally many draws
  answer each value. \<open>randomArray n\<close> is \<open>n\<close> bytes.
\<close>

record Random =
  draw :: nat
  byteSupply :: "nat \<Rightarrow> 8 word"

definition randomUIntRange :: "Random \<Rightarrow> nat \<Rightarrow> nat \<Rightarrow> nat" where
  "randomUIntRange r lo hi = lo + draw r mod (hi - lo + 1)"

definition randomArray :: "Random \<Rightarrow> nat \<Rightarrow> QByteArray" where
  "randomArray r n = map (byteSupply r) [0..<n]"

text \<open>
  Modelled from the spec: the KDF descriptor (crypto/kdf/Kdf.h) is its parameters and
  its seed; \<^verbatim>\<open>randomizeSeed\<close> replaces the seed by random bytes of the same length.
\<close>

record Kdf =
  kdf_uuid :: QUuid
  kdf_rounds :: nat
  kdf_seed :: QByteArray

definition randomizeSeed :: "Random \<Rightarrow> Kdf \<Rightarrow> Kdf" where
  "randomizeSeed r k = k\<lparr>kdf_seed := randomArray r (length (kdf_seed k))\<rparr>"

text \<open>
  Modelled from the spec: \<^verbatim>\<open>DatabaseData\<close> (core/Database.h), the state bag of the
  database. The three key holders are always allocated; \<^verbatim>\<open>key\<close> and \<^verbatim>\<open>kdf\<close> are
  shared pointers that may be null. \<^verbatim>\<open>resetKeys\<close> zeroes all key-derived state,
  \<^verbatim>\<open>clear\<close> also forgets the path and the public custom data.
\<close>

record DatabaseData =
  filePath :: QString
  formatVersion :: "32 word"
  publicCustomData :: "(QString \<times> QByteArray) list"
  masterSeed :: PasswordKey
  transformedDatabaseKey :: PasswordKey
  challengeResponseKey :: PasswordKey
  key :: "CompositeKey option"
  kdf :: "Kdf option"

definition resetKeys :: "DatabaseData \<Rightarrow> DatabaseData" where
  "resetKeys dd = dd\<lparr>masterSeed := PasswordKey_new, transformedDatabaseKey := PasswordKey_new,
     challengeResponseKey := PasswordKey_new, key := None, kdf := None\<rparr>"

definition DatabaseData_clear :: "DatabaseData \<Rightarrow> DatabaseData" where
  "DatabaseData_clear dd = (resetKeys dd)\<lparr>filePath := [], publicCustomData := []\<rparr>"

text \<open>
  Modelled from the spec: the group tree (core/Group.h) and the metadata
  (core/Metadata.h), as far as Database.cpp writes them: the root group's UUID and name,
  the custom data (string keys to string values) and the time of the last key change.
  Writing them does not call back into the database.
\<close>

record Group =
  group_uuid :: QUuid
  group_name :: QString

definition Group_new :: Group where
  "Group_new = \<lparr>group_uuid = 0, group_name = []\<rparr>"

record Metadata =
  customData :: "QString \<Rightarrow> QString option"
  databaseKeyChanged :: nat

definition Metadata_clear :: "Metadata \<Rightarrow> Metadata" where
  "Metadata_clear m = \<lparr>customData = Map.empty, databaseKeyChanged = 0\<rparr>"

definition CustomData_set :: "QString \<Rightarrow> QString \<Rightarrow> Metadata \<Rightarrow> Metadata" where
  "CustomData_set k v m = m\<lparr>customData := (customData m)(k \<mapsto> v)\<rparr>"

definition setDatabaseKeyChanged :: "nat \<Rightarrow> Metadata \<Rightarrow> Metadata" where
  "setDatabaseKeyChanged t m = m\<lparr>databaseKeyChanged := t\<rparr>"

text \<open>
  Modelled from the spec: the reserved custom-data key of the random padding
  (\<^verbatim>\<open>CustomData::RandomSlug\<close>, core/CustomData.h).
\<close>

definition RandomSlug :: QString where
  "RandomSlug = ''KPXC_RANDOM_SLUG''"

record DeletedObject =
  del_uuid :: QUuid
  deletionTime :: nat

subsection \<open>The object and its effects\<close>

datatype Signal =
    databaseOpened
  | databaseSaved
  | databaseDiscarded
  | databaseFileChanged bool
  | filePathChanged QString QString
  | databaseNonDataChanged

datatype Effect =
    Emit Signal
  | InvokeQueued Signal
  | WatcherStart QString nat nat
  | WatcherStop
  | WatcherPause
  | WatcherResume
  | SetPermissionsOwnerRW QString
  | BackupDatabase QString QString

record Database =
  m_data :: DatabaseData
  m_metadata :: Metadata
  m_rootGroup :: "Group option"
  m_deletedObjects :: "DeletedObject list"
  m_uuid :: QUuid
  m_modified :: bool
  m_hasNonDataChange :: bool
  m_emitModified :: bool
  m_modifiedTimer :: bool
  m_fileBlockHash :: QByteArray
  m_ignoreFileChangesUntilSaved :: bool
  m_saveMutex :: bool
  m_keyError :: QString
  effects :: "Effect list"

definition effect :: "Effect \<Rightarrow> Database \<Rightarrow> Database" where
  "effect e d = d\<lparr>effects := effects d @ [e]\<rparr>"

subsection \<open>Modification tracker\<close>

text \<open>
  \<open>m_modifiedTimer\<close> is whether the single-shot timer of 150 ms is armed.
  \<^verbatim>\<open>startModifiedTimer\<close> and \<^verbatim>\<open>stopModifiedTimer\<close> invoke the timer's
  \<^verbatim>\<open>start\<close> and \<^verbatim>\<open>stop\<close>.
\<close>

definition startModifiedTimer :: "Database \<Rightarrow> Database" where
  "startModifiedTimer d = d\<lparr>m_modifiedTimer := True\<rparr>"

definition stopModifiedTimer :: "Database \<Rightarrow> Database" where
  "stopModifiedTimer d = d\<lparr>m_modifiedTimer := False\<rparr>"

text \<open>
  Modelled from the spec: \<^verbatim>\<open>setEmitModified\<close> and \<^verbatim>\<open>modifiedSignalEnabled\<close>
  belong to the base class (core/ModifiableObject.h). Switching the flag notifies the
  hook installed by the constructor of Database.cpp, which stops the timer when
  signalling is turned off.
\<close>

definition modifiedSignalEnabled :: "Database \<Rightarrow> bool" where
  "modifiedSignalEnabled d = m_emitModified d"

definition setEmitModified :: "bool \<Rightarrow> Database \<Rightarrow> Database" where
  "setEmitModified v d =
     (if m_emitModified d \<noteq> v
      then let d1 = d\<lparr>m_emitModified := v\<rparr> in (if \<not> v then stopModifiedTimer d1 else d1)
      else d)"

definition isModified :: "Database \<Rightarrow> bool" where
  "isModified d = m_modified d"

definition markAsModified :: "Database \<Rightarrow> Database" where
  "markAsModified d =
     (let d1 = d\<lparr>m_modified := True\<rparr>
      in if modifiedSignalEnabled d1 \<and> \<not> m_modifiedTimer d1 then startModifiedTimer d1 else d1)"

definition markAsClean :: "Database \<Rightarrow> Database" where
  "markAsClean d =
     (let emitSignal = m_modified d;
          d1 = d\<lparr>m_modified := False\<rparr>;
          d2 = stopModifiedTimer d1;
          d3 = d2\<lparr>m_hasNonDataChange := False\<rparr>
      in if emitSignal then effect (Emit databaseSaved) d3 else d3)"

definition markNonDataChange :: "Database \<Rightarrow> Database" where
  "markNonDataChange d = effect (Emit databaseNonDataChanged) (d\<lparr>m_hasNonDataChange := True\<rparr>)"

subsection \<open>Small accessors and setters\<close>

text \<open>
  \<open>m_saveMutex\<close> is whether the save mutex is held. \<^verbatim>\<open>isSaving\<close> tries the lock and
  releases it at once: it answers whether the mutex was held.
\<close>

definition isSaving :: "Database \<Rightarrow> bool" where
  "isSaving d = m_saveMutex d"

definition isInitialized :: "Database \<Rightarrow> bool" where
  "isInitialized d =
     (case key (m_data d) of
        None \<Rightarrow> False
      | Some k \<Rightarrow> \<not> CompositeKey_isEmpty k \<and> m_rootGroup d \<noteq> None)"

definition setFilePath :: "QString \<Rightarrow> Database \<Rightarrow> Database" where
  "setFilePath path d =
     (if path \<noteq> filePath (m_data d)
      then let oldPath = filePath (m_data d);
               d1 = d\<lparr>m_data := (m_data d)\<lparr>filePath := path\<rparr>\<rparr>;
               d2 = effect WatcherStop d1;
               d3 = d2\<lparr>m_ignoreFileChangesUntilSaved := False\<rparr>
           in effect (Emit (filePathChanged oldPath path)) d3
      else d)"

definition setIgnoreFileChangesUntilSaved :: "bool \<Rightarrow> Database \<Rightarrow> Database" where
  "setIgnoreFileChangesUntilSaved ignore d =
     (if m_ignoreFileChangesUntilSaved d \<noteq> ignore
      then let d1 = d\<lparr>m_ignoreFileChangesUntilSaved := ignore\<rparr>
           in (if ignore then effect WatcherPause d1 else effect WatcherResume d1)
      else d)"

definition setFormatVersion :: "32 word \<Rightarrow> Database \<Rightarrow> Database" where
  "setFormatVersion v d = d\<lparr>m_data := (m_data d)\<lparr>formatVersion := v\<rparr>\<rparr>"

text \<open>
  \<^verbatim>\<open>setRootGroup\<close> returns the old root group with the updated object. \<open>newUuid\<close> is
  what \<^verbatim>\<open>QUuid::createUuid\<close> answers if it is asked.
\<close>

definition setRootGroup :: "QUuid \<Rightarrow> Group \<Rightarrow> Database \<Rightarrow> Group option \<times> Database" where
  "setRootGroup newUuid grp d =
     (let d1 = (if isInitialized d \<and> isModified d then effect (Emit databaseDiscarded) d else d);
          oldRoot = m_rootGroup d1;
          g = (if group_uuid grp = 0
               then grp\<lparr>group_uuid := newUuid, group_name := ''Passwords''\<rparr>
               else grp)
      in (oldRoot, d1\<lparr>m_rootGroup := Some g\<rparr>))"

subsection \<open>Registry\<close>

text \<open>
  \<^verbatim>\<open>s_uuidMap\<close> maps a UUID to the address of the live database registered under it.
  \<^verbatim>\<open>databaseByUuid\<close> answers \<open>None\<close> for the null pointer.
\<close>

type_synonym Registry = "QUuid \<Rightarrow> nat option"

definition databaseByUuid :: "Registry \<Rightarrow> QUuid \<Rightarrow> nat option" where
  "databaseByUuid s_uuidMap uuid = s_uuidMap uuid"

text \<open>
  The constructor. \<open>this\<close> is the address of the new object, \<open>uuid\<close> and
  \<open>rootUuid\<close> are the answers of \<^verbatim>\<open>QUuid::createUuid\<close>, \<open>data0\<close> is the
  default-constructed \<^verbatim>\<open>DatabaseData\<close>.
\<close>

definition Database_new :: "nat \<Rightarrow> QUuid \<Rightarrow> QUuid \<Rightarrow> DatabaseData \<Rightarrow> Registry \<Rightarrow> Registry \<times> Database" where
  "Database_new this uuid rootUuid data0 s_uuidMap =
     (let d0 = \<lparr>m_data = data0, m_metadata = \<lparr>customData = Map.empty, databaseKeyChanged = 0\<rparr>,
                m_rootGroup = None, m_deletedObjects = [], m_uuid = uuid, m_modified = False,
                m_hasNonDataChange = False, m_emitModified = True, m_modifiedTimer = False,
                m_fileBlockHash = [], m_ignoreFileChangesUntilSaved = False, m_saveMutex = False,
                m_keyError = [], effects = []\<rparr>;
          s_uuidMap1 = s_uuidMap(m_uuid d0 \<mapsto> this);
          d1 = setEmitModified False d0;
          d2 = snd (setRootGroup rootUuid Group_new d1);
          d3 = d2\<lparr>m_modified := False\<rparr>
      in (s_uuidMap1, setEmitModified True d3))"

text \<open>
  \<^verbatim>\<open>releaseData\<close> takes the save mutex first: while the mutex is held it does not get
  past that line, which is the result \<open>None\<close>.
\<close>

definition releaseData :: "QUuid \<Rightarrow> Registry \<Rightarrow> Database \<Rightarrow> (Registry \<times> Database) option" where
  "releaseData newUuid s_uuidMap d =
     (if m_saveMutex d then None
      else let d1 = (if m_modified d then effect (Emit databaseDiscarded) d else d);
               d2 = setEmitModified False d1;
               d3 = d2\<lparr>m_modified := False\<rparr>;
               s_uuidMap1 = s_uuidMap(m_uuid d3 := None);
               d4 = d3\<lparr>m_uuid := 0\<rparr>;
               d5 = d4\<lparr>m_data := DatabaseData_clear (m_data d4)\<rparr>;
               d6 = d5\<lparr>m_metadata := Metadata_clear (m_metadata d5)\<rparr>;
               d7 = snd (setRootGroup newUuid Group_new d6);
               d8 = effect WatcherStop d7;
               d9 = d8\<lparr>m_deletedObjects := []\<rparr>;
               d10 = d9\<lparr>m_fileBlockHash := []\<rparr>
           in Some (s_uuidMap1, d10\<lparr>m_ignoreFileChangesUntilSaved := False\<rparr>))"

subsection \<open>Key lifecycle\<close>

text \<open>
  The KDF: \<open>transform key kdf\<close> is \<open>Inr\<close> the transformed bytes or \<open>Inl\<close> the
  error text that \<^verbatim>\<open>CompositeKey::transform\<close> leaves in its error argument.
\<close>

type_synonym Transform = "CompositeKey \<Rightarrow> Kdf \<Rightarrow> QString + QByteArray"

text \<open>
  The statements of \<^verbatim>\<open>setKey\<close> after the transformation (lines 936 to 948):
  install the key and the non-empty transformed bytes, stamp the change time, and mark
  the database modified when the stored bytes differ from the captured old ones.
\<close>

definition setKey_install ::
  "CompositeKey \<Rightarrow> QByteArray \<Rightarrow> PasswordKey \<Rightarrow> bool \<Rightarrow> nat \<Rightarrow> Database \<Rightarrow> Database" where
  "setKey_install newKey transformedKey oldTransformedDatabaseKey updateChangedTime now d =
     (let d1 = d\<lparr>m_data := (m_data d)\<lparr>key := Some newKey\<rparr>\<rparr>;
          d2 = (if transformedKey \<noteq> []
                then d1\<lparr>m_data := (m_data d1)\<lparr>transformedDatabaseKey :=
                        setRawKey transformedKey (transformedDatabaseKey (m_data d1))\<rparr>\<rparr>
                else d1);
          d3 = (if updateChangedTime
                then d2\<lparr>m_metadata := setDatabaseKeyChanged now (m_metadata d2)\<rparr>
                else d2)
      in if rawKey oldTransformedDatabaseKey \<noteq> rawKey (transformedDatabaseKey (m_data d3))
         then markAsModified d3 else d3)"

text \<open>
  \<^verbatim>\<open>setKey\<close>. \<open>None\<close> as the key argument is the null pointer. The result \<open>None\<close>
  is a call that dereferences the null \<^verbatim>\<open>m_data.kdf\<close>; otherwise the result is the
  returned flag with the updated object. \<open>now\<close> is the clock.
\<close>

definition setKey ::
  "Transform \<Rightarrow> Random \<Rightarrow> nat \<Rightarrow> CompositeKey option \<Rightarrow> bool \<Rightarrow> bool \<Rightarrow> bool \<Rightarrow> Database
     \<Rightarrow> (bool \<times> Database) option" where
  "setKey transform rnd now newKey updateChangedTime updateTransformSalt transformKey d =
     (let d0 = d\<lparr>m_keyError := []\<rparr>
      in case newKey of
           None \<Rightarrow> Some (True, d0\<lparr>m_data := resetKeys (m_data d0)\<rparr>)
         | Some k \<Rightarrow>
             if updateTransformSalt \<and> kdf (m_data d0) = None then None
             else
               let d1 = (if updateTransformSalt
                         then d0\<lparr>m_data := (m_data d0)\<lparr>kdf := map_option (randomizeSeed rnd) (kdf (m_data d0))\<rparr>\<rparr>
                         else d0);
                   oldTransformedDatabaseKey =
                     (case key (m_data d1) of
                        None \<Rightarrow> PasswordKey_new
                      | Some k0 \<Rightarrow>
                          if \<not> CompositeKey_isEmpty k0
                          then setRawKey (rawKey (transformedDatabaseKey (m_data d1))) PasswordKey_new
                          else PasswordKey_new)
               in if \<not> transformKey
                  then Some (True, setKey_install k (rawKey oldTransformedDatabaseKey)
                                     oldTransformedDatabaseKey updateChangedTime now d1)
                  else (case kdf (m_data d1) of
                          None \<Rightarrow> None
                        | Some kd \<Rightarrow>
                            (case transform k kd of
                               Inl e \<Rightarrow> Some (False, d1\<lparr>m_keyError := e\<rparr>)
                             | Inr t \<Rightarrow> Some (True, setKey_install k t oldTransformedDatabaseKey
                                                      updateChangedTime now d1))))"

text \<open>
  \<open>kdbxVersionRequired\<close> is \<^verbatim>\<open>KeePass2Writer::kdbxVersionRequired\<close> (format/),
  a parameter: the minimum container version the database needs, given the two flags
  \<^verbatim>\<open>ignoreCurrent\<close> and \<^verbatim>\<open>ignoreKdf\<close>.
\<close>

type_synonym VersionRequired = "Database \<Rightarrow> bool \<Rightarrow> bool \<Rightarrow> 32 word"

definition setKdf :: "VersionRequired \<Rightarrow> Kdf option \<Rightarrow> Database \<Rightarrow> Database" where
  "setKdf kdbxVersionRequired newKdf d =
     (let d1 = d\<lparr>m_data := (m_data d)\<lparr>kdf := newKdf\<rparr>\<rparr>
      in setFormatVersion (kdbxVersionRequired d1 True (kdf (m_data d1) = None)) d1)"

definition changeKdf :: "Transform \<Rightarrow> VersionRequired \<Rightarrow> Random \<Rightarrow> Kdf \<Rightarrow> Database \<Rightarrow> bool \<times> Database" where
  "changeKdf transform kdbxVersionRequired rnd newKdf d =
     (let kdf1 = randomizeSeed rnd newKdf;
          k = (case key (m_data d) of None \<Rightarrow> CompositeKey_create | Some k0 \<Rightarrow> k0);
          d1 = d\<lparr>m_data := (m_data d)\<lparr>key := Some k\<rparr>\<rparr>
      in case transform k kdf1 of
           Inl e \<Rightarrow> (False, d1)
         | Inr t \<Rightarrow>
             let d2 = setKdf kdbxVersionRequired (Some kdf1) d1;
                 d3 = d2\<lparr>m_data := (m_data d2)\<lparr>transformedDatabaseKey :=
                        setRawKey t (transformedDatabaseKey (m_data d2))\<rparr>\<rparr>
             in (True, markAsModified d3))"

subsection \<open>Files\<close>

text \<open>
  A file on disk is its bytes, whether it can be opened for reading, and where a read
  fails: \<open>readFault = Some k\<close> is a device that hands over no more than \<open>k\<close> bytes.
  \<^verbatim>\<open>read\<close> and \<^verbatim>\<open>peek\<close> of at most \<open>n\<close> bytes at the start of the file answer
  the same bytes. The file system maps a path to the file there (\<open>None\<close>: no such
  file) and resolves paths.
\<close>

record OnDiskFile =
  contents :: QByteArray
  openable :: bool
  readFault :: "nat option"

definition QFile_read :: "OnDiskFile \<Rightarrow> nat \<Rightarrow> QByteArray" where
  "QFile_read f n = take (case readFault f of None \<Rightarrow> n | Some k \<Rightarrow> min n k) (contents f)"

definition QFile_peek :: "OnDiskFile \<Rightarrow> nat \<Rightarrow> QByteArray" where
  "QFile_peek f n = QFile_read f n"

definition QFile_size :: "OnDiskFile \<Rightarrow> nat" where
  "QFile_size f = length (contents f)"

record FileSystem =
  files :: "QString \<Rightarrow> OnDiskFile option"
  canonicalFilePathOf :: "QString \<Rightarrow> QString"
  absoluteFilePathOf :: "QString \<Rightarrow> QString"

definition QFile_exists :: "FileSystem \<Rightarrow> QString \<Rightarrow> bool" where
  "QFile_exists fs path = (files fs path \<noteq> None)"

definition canonicalFilePath :: "FileSystem \<Rightarrow> Database \<Rightarrow> QString" where
  "canonicalFilePath fs d = canonicalFilePathOf fs (filePath (m_data d))"

text \<open>
  The functions below take the digest \<open>md5\<close> (\<^verbatim>\<open>QCryptographicHash::Md5\<close>) and
  the block size \<open>N\<close> (\<^verbatim>\<open>kFileBlockToHashSizeBytes\<close>, declared in core/Database.h)
  as parameters.
\<close>

type_synonym Digest = "QByteArray \<Rightarrow> QByteArray"

subsection \<open>The container codec\<close>

text \<open>
  Modelled from the spec: the container codec (format/KeePass2Reader.h,
  format/KeePass2Writer.h) reaches the database through its public setters. The reader
  populates the state bag, the metadata, the tree and the tombstones, and reports success
  or an error text. The writer re-derives the key material in the state bag, sends bytes
  to the device, and reports an error text or none.
\<close>

record ReaderResult =
  r_ok :: bool
  r_errorString :: QString
  r_data :: DatabaseData
  r_metadata :: Metadata
  r_rootGroup :: "Group option"
  r_deletedObjects :: "DeletedObject list"

type_synonym KeePass2Reader = "OnDiskFile \<Rightarrow> CompositeKey option \<Rightarrow> Database \<Rightarrow> ReaderResult"

record WriterResult =
  w_data :: DatabaseData
  w_written :: QByteArray
  w_error :: "QString option"

type_synonym KeePass2Writer = "Database \<Rightarrow> WriterResult"

text \<open>
  Modelled from the spec: the hashing stream (streams/HashingStream.h) passes the bytes
  on and digests the first \<open>N\<close> of them.
\<close>

definition hashingResult :: "Digest \<Rightarrow> nat \<Rightarrow> QByteArray \<Rightarrow> QByteArray" where
  "hashingResult md5 N written = md5 (take N written)"

subsection \<open>Opening\<close>

text \<open>
  A call returns the flag, the text written to \<^verbatim>\<open>*error\<close> (\<open>None\<close>: the call did
  not write it) and the updated object. \<open>Database_open\<close> is \<^verbatim>\<open>open(filePath, key, error)\<close>
  and \<open>Database_open_bound\<close> is \<^verbatim>\<open>open(key, error)\<close> on the bound path; the reader
  is given the opened file.
\<close>

type_synonym Outcome = "bool \<times> QString option \<times> Database"

definition Database_open ::
  "Digest \<Rightarrow> nat \<Rightarrow> FileSystem \<Rightarrow> KeePass2Reader \<Rightarrow> QString \<Rightarrow> CompositeKey option \<Rightarrow> Database
     \<Rightarrow> Outcome" where
  "Database_open md5 N fs reader path k d =
     (case files fs path of
        None \<Rightarrow> (False, Some (''File '' @ path @ '' does not exist.''), d)
      | Some dbFile \<Rightarrow>
          if \<not> openable dbFile
          then (False, Some (''Unable to open file '' @ path @ ''.''), d)
          else
            let d1 = setEmitModified False d;
                d2 = d1\<lparr>m_fileBlockHash := []\<rparr>;
                fileBlockData = QFile_peek dbFile N
            in if length fileBlockData \<noteq> N \<and> QFile_size dbFile \<ge> N
               then (False, Some ''Database file read error.'', d2)
               else
                 let d3 = (if length fileBlockData \<noteq> N then d2
                           else d2\<lparr>m_fileBlockHash := md5 fileBlockData\<rparr>);
                     r = reader dbFile k d3;
                     d4 = d3\<lparr>m_data := r_data r, m_metadata := r_metadata r,
                             m_rootGroup := r_rootGroup r, m_deletedObjects := r_deletedObjects r\<rparr>
                 in if \<not> r_ok r
                    then (False, Some (''Error while reading the database: '' @ r_errorString r), d4)
                    else
                      let d5 = setFilePath path d4;
                          d6 = markAsClean d5;
                          d7 = effect (Emit databaseOpened) d6;
                          d8 = effect (WatcherStart (canonicalFilePath fs d7) 30 1) d7
                      in (True, None, setEmitModified True d8))"

definition Database_open_bound ::
  "Digest \<Rightarrow> nat \<Rightarrow> FileSystem \<Rightarrow> KeePass2Reader \<Rightarrow> CompositeKey option \<Rightarrow> Database \<Rightarrow> Outcome" where
  "Database_open_bound md5 N fs reader k d =
     (if filePath (m_data d) = [] then (False, None, d)
      else Database_open md5 N fs reader (filePath (m_data d)) k d)"

subsection \<open>Writing\<close>

text \<open>
  \<^verbatim>\<open>writeDatabase\<close>. The result \<open>None\<close> is a call that dereferences the null
  \<^verbatim>\<open>m_data.key\<close>; otherwise the outcome comes with the bytes sent to the device.
\<close>

definition writeDatabase :: "KeePass2Writer \<Rightarrow> Database \<Rightarrow> (Outcome \<times> QByteArray) option" where
  "writeDatabase writer d =
     (case key (m_data d) of
        None \<Rightarrow> None
      | Some k \<Rightarrow>
          (let oldTransformedKey =
                 (if CompositeKey_isEmpty k
                  then setRawKey (rawKey (transformedDatabaseKey (m_data d))) PasswordKey_new
                  else PasswordKey_new);
               d1 = setEmitModified False d;
               w = writer d1;
               d2 = d1\<lparr>m_data := w_data w\<rparr>;
               d3 = setEmitModified True d2
           in (case w_error w of
                 Some e \<Rightarrow> Some ((False, Some e, d3), w_written w)
               | None \<Rightarrow>
                   (let newKey = rawKey (transformedDatabaseKey (m_data d3))
                    in if newKey = [] \<or> newKey = rawKey oldTransformedKey
                       then Some ((False,
                              Some ''Key not transformed. This is a bug, please report it to the developers.'',
                              d3), w_written w)
                       else Some ((True, None, d3), w_written w)))))"

text \<open>
  The answers of the file system to the calls of \<^verbatim>\<open>performSave\<close> and
  \<^verbatim>\<open>restoreDatabase\<close>, one field for each call whose result the code reads.
\<close>

record SaveIO =
  saveFile_open :: bool
  saveFile_commit :: bool
  saveFile_errorString :: QString
  tempFile_open :: bool
  tempFile_rename :: bool
  tempFile_errorString :: QString
  tempFile_fileName :: QString
  dbFile_open :: bool
  dbFile_errorString :: QString
  hashingStream_open :: bool
  backup_exists :: bool
  backup_copy :: bool
  backup_setPermissions :: bool

datatype SaveAction = Atomic | TempFile | DirectWrite

definition restoreDatabase :: "SaveIO \<Rightarrow> bool" where
  "restoreDatabase io = (if backup_exists io then (if backup_copy io then backup_setPermissions io else False) else False)"

definition performSave ::
  "Digest \<Rightarrow> nat \<Rightarrow> SaveIO \<Rightarrow> KeePass2Writer \<Rightarrow> QString \<Rightarrow> SaveAction \<Rightarrow> QString option \<Rightarrow> Database
     \<Rightarrow> Outcome option" where
  "performSave md5 N io writer path action backupFilePath d =
     (let d0 = (case backupFilePath of None \<Rightarrow> d | Some b \<Rightarrow> effect (BackupDatabase path b) d)
      in case action of
           Atomic \<Rightarrow>
             if saveFile_open io
             then if \<not> hashingStream_open io then Some (False, None, d0)
                  else (case writeDatabase writer d0 of
                          None \<Rightarrow> None
                        | Some ((ok, err, d1), written) \<Rightarrow>
                            if \<not> ok then Some (False, err, d1)
                            else if saveFile_commit io
                            then Some (True, None, d1\<lparr>m_fileBlockHash := hashingResult md5 N written\<rparr>)
                            else Some (False, Some (saveFile_errorString io), d1))
             else Some (False, Some (saveFile_errorString io), d0)
         | TempFile \<Rightarrow>
             if tempFile_open io
             then if \<not> hashingStream_open io then Some (False, None, d0)
                  else (case writeDatabase writer d0 of
                          None \<Rightarrow> None
                        | Some ((ok, err, d1), written) \<Rightarrow>
                            if \<not> ok then Some (False, err, d1)
                            else if tempFile_rename io
                            then Some (True, None, d1\<lparr>m_fileBlockHash := hashingResult md5 N written\<rparr>)
                            else if QString_isEmpty backupFilePath \<or> \<not> restoreDatabase io
                            then Some (False, Some (tempFile_errorString io
                                   @ [CHR 0x0A] @ ''Backup database located at '' @ tempFile_fileName io), d1)
                            else Some (False, Some (tempFile_errorString io), d1))
             else Some (False, Some (tempFile_errorString io), d0)
         | DirectWrite \<Rightarrow>
             if dbFile_open io
             then if \<not> hashingStream_open io then Some (False, None, d0)
                  else (case writeDatabase writer d0 of
                          None \<Rightarrow> None
                        | Some ((ok, err, d1), written) \<Rightarrow>
                            if \<not> ok then Some (False, err, d1)
                            else Some (True, None, d1\<lparr>m_fileBlockHash := hashingResult md5 N written\<rparr>))
             else Some (False, Some (dbFile_errorString io), d0))"

subsection \<open>Saving\<close>

text \<open>
  The external-change check of \<^verbatim>\<open>saveAs\<close> (lines 278 to 306). \<open>Some\<close> is the
  outcome with which \<^verbatim>\<open>saveAs\<close> returns from inside the check, \<open>None\<close> a check
  that lets the save go on.
\<close>

definition externalChangeCheck :: "Digest \<Rightarrow> nat \<Rightarrow> FileSystem \<Rightarrow> QString \<Rightarrow> Database \<Rightarrow> Outcome option" where
  "externalChangeCheck md5 N fs path d =
     (if \<not> m_ignoreFileChangesUntilSaved d \<and> m_fileBlockHash d \<noteq> [] \<and> path = filePath (m_data d)
      then (case files fs path of
              None \<Rightarrow> None
            | Some dbFile \<Rightarrow>
                if \<not> openable dbFile
                then Some (False, Some (''Unable to open file '' @ path @ ''.''), d)
                else
                  (let fileBlockData = QFile_read dbFile N
                   in if length fileBlockData = N
                      then (let hash = md5 fileBlockData
                            in if m_fileBlockHash d \<noteq> hash
                               then Some (False, Some ''Database file has unmerged changes.'',
                                          effect (InvokeQueued (databaseFileChanged True)) d)
                               else None)
                      else if QFile_size dbFile \<ge> N
                      then Some (False, Some ''Database file read error.'', d)
                      else None))
      else None)"

text \<open>
  The write phase of \<^verbatim>\<open>saveAs\<close> (lines 308 to 347) in its three steps.
  \<open>saveAs_prepare\<close> (lines 308 to 313) stops the watcher and injects the random slug.
  \<open>realFilePath\<close> (lines 318 and 319) resolves the target. \<open>saveAs_write\<close> runs
  \<^verbatim>\<open>performSave\<close> on the prepared object, waits for it, and settles the flags
  (lines 326 to 346). The save mutex is taken and released inside the phase.
\<close>

definition saveAs_prepare :: "Random \<Rightarrow> Database \<Rightarrow> Database" where
  "saveAs_prepare rnd d =
     (let d1 = effect WatcherStop d;
          len = randomUIntRange rnd 64 512
      in d1\<lparr>m_metadata := CustomData_set RandomSlug (toHex (randomArray rnd len)) (m_metadata d1)\<rparr>)"

definition realFilePath :: "FileSystem \<Rightarrow> QString \<Rightarrow> QString" where
  "realFilePath fs path =
     (if QFile_exists fs path then canonicalFilePathOf fs path else absoluteFilePathOf fs path)"

definition saveAs_write ::
  "Digest \<Rightarrow> nat \<Rightarrow> FileSystem \<Rightarrow> SaveIO \<Rightarrow> KeePass2Writer \<Rightarrow> Random \<Rightarrow> QString \<Rightarrow> SaveAction
     \<Rightarrow> QString option \<Rightarrow> Database \<Rightarrow> Outcome option" where
  "saveAs_write md5 N fs io writer rnd path action backupFilePath d =
     (let d2 = saveAs_prepare rnd d;
          isNewFile = \<not> QFile_exists fs (realFilePath fs path)
      in case performSave md5 N io writer (realFilePath fs path) action backupFilePath d2 of
           None \<Rightarrow> None
         | Some (ok, err, d3) \<Rightarrow>
             if ok
             then (let d4 = setFilePath path d3;
                       d5 = markAsClean d4;
                       d6 = (if isNewFile then effect (SetPermissionsOwnerRW (realFilePath fs path)) d5
                             else d5);
                       d7 = d6\<lparr>m_ignoreFileChangesUntilSaved := False\<rparr>
                   in Some (True, err, effect (WatcherStart (realFilePath fs path) 30 1) d7))
             else Some (False, err, markAsModified d3))"

definition saveAs ::
  "Digest \<Rightarrow> nat \<Rightarrow> FileSystem \<Rightarrow> SaveIO \<Rightarrow> KeePass2Writer \<Rightarrow> Random \<Rightarrow> QString \<Rightarrow> SaveAction
     \<Rightarrow> QString option \<Rightarrow> Database \<Rightarrow> Outcome option" where
  "saveAs md5 N fs io writer rnd path action backupFilePath d =
     (if isSaving d
      then Some (False, Some ''Database save is already in progress.'', d)
      else if \<not> isInitialized d
      then Some (False, Some ''Could not save, database has not been initialized!'', d)
      else (case externalChangeCheck md5 N fs path d of
              Some r \<Rightarrow> Some r
            | None \<Rightarrow> saveAs_write md5 N fs io writer rnd path action backupFilePath d))"

definition save ::
  "Digest \<Rightarrow> nat \<Rightarrow> FileSystem \<Rightarrow> SaveIO \<Rightarrow> KeePass2Writer \<Rightarrow> Random \<Rightarrow> SaveAction
     \<Rightarrow> QString option \<Rightarrow> Database \<Rightarrow> Outcome option" where
  "save md5 N fs io writer rnd action backupFilePath d =
     (if filePath (m_data d) = []
      then Some (False, Some ''Could not save, database does not point to a valid file.'', d)
      else saveAs md5 N fs io writer rnd (filePath (m_data d)) action backupFilePath d)"

subsection \<open>Concrete collaborators and objects\<close>

text \<open>
  Small stand-ins for the collaborators, on which the functions above can be run: a KDF
  that appends the seed to the key factors, a digest that keeps the length and the first
  two bytes, a reader that installs the key it is given, a writer that rotates the
  transformed key and one that leaves it alone, and a file system with one container file.
\<close>

definition kdf0 :: Kdf where
  "kdf0 = \<lparr>kdf_uuid = 1, kdf_rounds = 2, kdf_seed = [0, 0]\<rparr>"

definition data0 :: DatabaseData where
  "data0 = \<lparr>filePath = [], formatVersion = 0, publicCustomData = [], masterSeed = [],
             transformedDatabaseKey = [], challengeResponseKey = [], key = None, kdf = Some kdf0\<rparr>"

definition toy_transform :: Transform where
  "toy_transform k kd = Inr (concat (m_keys k) @ kdf_seed kd @ [1])"

definition toy_version :: VersionRequired where
  "toy_version d ignoreCurrent ignoreKdf = (if ignoreKdf then 0x00030001 else 0x00040000)"

definition toy_md5 :: Digest where
  "toy_md5 bs = word_of_nat (length bs) # take 2 bs"

definition toy_rnd :: Random where
  "toy_rnd = \<lparr>draw = 0, byteSupply = (\<lambda>i. word_of_nat i)\<rparr>"

definition password_key :: CompositeKey where
  "password_key = \<lparr>m_keys = [[1, 2, 3]], m_challengeResponseKeys = []\<rparr>"

definition toy_reader :: KeePass2Reader where
  "toy_reader f k d =
     \<lparr>r_ok = True, r_errorString = [],
      r_data = (m_data d)\<lparr>key := k, transformedDatabaseKey := [9], formatVersion := 0x00040000\<rparr>,
      r_metadata = m_metadata d, r_rootGroup = Some \<lparr>group_uuid = 7, group_name = ''Root''\<rparr>,
      r_deletedObjects = []\<rparr>"

definition toy_writer :: KeePass2Writer where
  "toy_writer d =
     \<lparr>w_data = (m_data d)\<lparr>transformedDatabaseKey := 1 # transformedDatabaseKey (m_data d)\<rparr>,
      w_written = [1, 2, 3, 4, 5, 6], w_error = None\<rparr>"

definition idle_writer :: KeePass2Writer where
  "idle_writer d = \<lparr>w_data = m_data d, w_written = [1, 2, 3, 4, 5, 6], w_error = None\<rparr>"

definition toy_io :: SaveIO where
  "toy_io = \<lparr>saveFile_open = True, saveFile_commit = True, saveFile_errorString = ''saveFile'',
              tempFile_open = True, tempFile_rename = True, tempFile_errorString = ''tempFile'',
              tempFile_fileName = ''/tmp/staging'', dbFile_open = True, dbFile_errorString = ''dbFile'',
              hashingStream_open = True, backup_exists = True, backup_copy = True,
              backup_setPermissions = True\<rparr>"

definition toy_path :: QString where
  "toy_path = ''/tmp/a.kdbx''"

definition toy_file :: OnDiskFile where
  "toy_file = \<lparr>contents = [1, 2, 3, 4, 5], openable = True, readFault = None\<rparr>"

definition toy_fs :: "OnDiskFile option \<Rightarrow> FileSystem" where
  "toy_fs f = \<lparr>files = (\<lambda>p. if p = toy_path then f else None),
               canonicalFilePathOf = (\<lambda>p. p), absoluteFilePathOf = (\<lambda>p. p)\<rparr>"

definition fresh_db :: Database where
  "fresh_db = snd (Database_new 1 5 9 data0 Map.empty)"

definition fresh_registry :: Registry where
  "fresh_registry = fst (Database_new 1 5 9 data0 Map.empty)"

definition opened_db :: Database where
  "opened_db = snd (snd (Database_open toy_md5 4 (toy_fs (Some toy_file)) toy_reader toy_path
                           (Some password_key) fresh_db))"

text \<open>
  A database that got its transformed key from \<^verbatim>\<open>changeKdf\<close> before any key was set,
  and was marked clean afterwards: its composite key is the empty one that
  \<^verbatim>\<open>changeKdf\<close> creates.
\<close>

definition kdf_db :: Database where
  "kdf_db = markAsClean (snd (changeKdf toy_transform toy_version toy_rnd kdf0 fresh_db))"

section \<open>Verification\<close>

subsection \<open>What the small operations leave alone\<close>

lemma setEmitModified_fields [simp]:
  "m_modified (setEmitModified v d) = m_modified d"
  "m_hasNonDataChange (setEmitModified v d) = m_hasNonDataChange d"
  "m_fileBlockHash (setEmitModified v d) = m_fileBlockHash d"
  "m_ignoreFileChangesUntilSaved (setEmitModified v d) = m_ignoreFileChangesUntilSaved d"
  "m_saveMutex (setEmitModified v d) = m_saveMutex d"
  "m_uuid (setEmitModified v d) = m_uuid d"
  "m_data (setEmitModified v d) = m_data d"
  "m_metadata (setEmitModified v d) = m_metadata d"
  "m_rootGroup (setEmitModified v d) = m_rootGroup d"
  "effects (setEmitModified v d) = effects d"
  by (simp_all add: setEmitModified_def stopModifiedTimer_def Let_def)

lemma markAsModified_fields [simp]:
  "m_modified (markAsModified d) = True"
  "m_hasNonDataChange (markAsModified d) = m_hasNonDataChange d"
  "m_fileBlockHash (markAsModified d) = m_fileBlockHash d"
  "m_ignoreFileChangesUntilSaved (markAsModified d) = m_ignoreFileChangesUntilSaved d"
  "m_saveMutex (markAsModified d) = m_saveMutex d"
  "m_uuid (markAsModified d) = m_uuid d"
  "m_data (markAsModified d) = m_data d"
  "m_metadata (markAsModified d) = m_metadata d"
  "m_rootGroup (markAsModified d) = m_rootGroup d"
  "effects (markAsModified d) = effects d"
  by (simp_all add: markAsModified_def startModifiedTimer_def modifiedSignalEnabled_def Let_def)

lemma effect_fields [simp]:
  "m_modified (effect e d) = m_modified d"
  "m_hasNonDataChange (effect e d) = m_hasNonDataChange d"
  "m_modifiedTimer (effect e d) = m_modifiedTimer d"
  "m_emitModified (effect e d) = m_emitModified d"
  "m_fileBlockHash (effect e d) = m_fileBlockHash d"
  "m_ignoreFileChangesUntilSaved (effect e d) = m_ignoreFileChangesUntilSaved d"
  "m_saveMutex (effect e d) = m_saveMutex d"
  "m_uuid (effect e d) = m_uuid d"
  "m_data (effect e d) = m_data d"
  "m_metadata (effect e d) = m_metadata d"
  "m_rootGroup (effect e d) = m_rootGroup d"
  "effects (effect e d) = effects d @ [e]"
  by (simp_all add: effect_def)

lemma markAsClean_fields [simp]:
  "m_modified (markAsClean d) = False"
  "m_hasNonDataChange (markAsClean d) = False"
  "m_modifiedTimer (markAsClean d) = False"
  "m_fileBlockHash (markAsClean d) = m_fileBlockHash d"
  "m_ignoreFileChangesUntilSaved (markAsClean d) = m_ignoreFileChangesUntilSaved d"
  "m_saveMutex (markAsClean d) = m_saveMutex d"
  "m_uuid (markAsClean d) = m_uuid d"
  "m_data (markAsClean d) = m_data d"
  "m_metadata (markAsClean d) = m_metadata d"
  "m_rootGroup (markAsClean d) = m_rootGroup d"
  "effects (markAsClean d) = effects d @ (if m_modified d then [Emit databaseSaved] else [])"
  by (simp_all add: markAsClean_def stopModifiedTimer_def Let_def)

lemma setFilePath_fields [simp]:
  "m_modified (setFilePath p d) = m_modified d"
  "m_hasNonDataChange (setFilePath p d) = m_hasNonDataChange d"
  "m_fileBlockHash (setFilePath p d) = m_fileBlockHash d"
  "m_saveMutex (setFilePath p d) = m_saveMutex d"
  "m_uuid (setFilePath p d) = m_uuid d"
  "m_metadata (setFilePath p d) = m_metadata d"
  "m_rootGroup (setFilePath p d) = m_rootGroup d"
  "filePath (m_data (setFilePath p d)) = p"
  "key (m_data (setFilePath p d)) = key (m_data d)"
  "transformedDatabaseKey (m_data (setFilePath p d)) = transformedDatabaseKey (m_data d)"
  by (simp_all add: setFilePath_def Let_def)


lemma fresh_db_simps:
  "m_saveMutex fresh_db = False" "m_uuid fresh_db = 5" "m_modified fresh_db = False"
  "fresh_registry 5 = Some 1"
  by (simp_all add: fresh_db_def fresh_registry_def Database_new_def setRootGroup_def Let_def isModified_def)

lemma fresh_db_data:
  "m_data fresh_db = data0"
  by (simp_all add: fresh_db_def Database_new_def setRootGroup_def Let_def isModified_def)

lemma kdf_db_simps:
  "key (m_data kdf_db) = Some CompositeKey_create"
  "transformedDatabaseKey (m_data kdf_db) = [0, 1, 1]"
  "kdf (m_data kdf_db) = Some (kdf0\<lparr>kdf_seed := [0, 1]\<rparr>)"
  "m_modified kdf_db = False"
  by (simp_all add: kdf_db_def changeKdf_def fresh_db_data data0_def toy_transform_def Let_def
        randomizeSeed_def randomArray_def toy_rnd_def kdf0_def CompositeKey_create_def
        setKdf_def setFormatVersion_def setRawKey_def upt_rec)

lemma opened_db_simps:
  "key (m_data opened_db) = Some password_key"
  "transformedDatabaseKey (m_data opened_db) = [9]"
  "filePath (m_data opened_db) = toy_path"
  "m_rootGroup opened_db = Some \<lparr>group_uuid = 7, group_name = ''Root''\<rparr>"
  "m_fileBlockHash opened_db = [4, 1, 2]"
  "m_ignoreFileChangesUntilSaved opened_db = False"
  "m_saveMutex opened_db = False"
  "m_modified opened_db = False"
  by (simp_all add: opened_db_def Database_open_def toy_fs_def toy_file_def toy_reader_def
        toy_md5_def QFile_peek_def QFile_read_def QFile_size_def Let_def fresh_db_def
        Database_new_def setRootGroup_def isModified_def canonicalFilePath_def
        setFilePath_def Group_new_def data0_def isInitialized_def)

lemma opened_db_initialized: "isInitialized opened_db"
  by (simp add: isInitialized_def opened_db_simps password_key_def CompositeKey_isEmpty_def)

subsection \<open>Modification tracker\<close>

text \<open>
  Claim C8. Every call of \<^verbatim>\<open>markAsClean\<close> leaves the modified flag false, the debounce
  timer stopped and \<open>hasNonDataChange\<close> false, and it emits \<^verbatim>\<open>databaseSaved\<close>, as its
  only effect, exactly when the modified flag was true immediately before the call.
\<close>

theorem markAsClean_clears:
  "\<not> m_modified (markAsClean d) \<and> \<not> m_modifiedTimer (markAsClean d)
   \<and> \<not> m_hasNonDataChange (markAsClean d)
   \<and> effects (markAsClean d) = effects d @ (if m_modified d then [Emit databaseSaved] else [])"
  by simp

subsection \<open>Registry and release\<close>

text \<open>
  Claim C9. When the save mutex is free, \<^verbatim>\<open>releaseData\<close> completes, and afterwards a
  lookup of the UUID the database had before the call answers absent, the modified flag is
  false, the file block hash is empty and \<open>ignoreFileChangesUntilSaved\<close> is false.
\<close>

theorem releaseData_clears:
  assumes "\<not> m_saveMutex d"
  shows "\<exists>reg' d'. releaseData newUuid reg d = Some (reg', d')
           \<and> databaseByUuid reg' (m_uuid d) = None
           \<and> \<not> m_modified d' \<and> m_fileBlockHash d' = [] \<and> \<not> m_ignoreFileChangesUntilSaved d'"
  using assms
  by (simp add: releaseData_def databaseByUuid_def setRootGroup_def Let_def isModified_def)

text \<open>
  The database made by the constructor is found in the registry under its UUID 5; after
  \<^verbatim>\<open>releaseData\<close> it is not.
\<close>

theorem releaseData_clears_witness:
  "databaseByUuid fresh_registry 5 = Some 1
   \<and> (\<exists>reg' d'. releaseData 11 fresh_registry fresh_db = Some (reg', d')
           \<and> databaseByUuid reg' 5 = None
           \<and> \<not> m_modified d' \<and> m_fileBlockHash d' = [] \<and> \<not> m_ignoreFileChangesUntilSaved d')"
  using releaseData_clears [of fresh_db 11 fresh_registry]
  by (simp add: fresh_db_simps databaseByUuid_def)

subsection \<open>Key lifecycle\<close>

lemma setKey_install_modified:
  "m_modified (setKey_install k t old uct now d)
     = (m_modified d \<or> rawKey old \<noteq> (if t \<noteq> [] then t else transformedDatabaseKey (m_data d)))"
  by (simp add: setKey_install_def Let_def rawKey_def setRawKey_def)

lemma setKey_install_transformed:
  "transformedDatabaseKey (m_data (setKey_install k t old uct now d))
     = (if t \<noteq> [] then t else transformedDatabaseKey (m_data d))"
  by (simp add: setKey_install_def Let_def rawKey_def setRawKey_def)

lemma setKey_install_key:
  "key (m_data (setKey_install k t old uct now d)) = Some k"
  by (simp add: setKey_install_def Let_def rawKey_def setRawKey_def)

lemma setKey_key:
  assumes "setKey transform rnd now (Some k) uct uts tk d = Some (True, d')"
  shows "key (m_data d') = Some k"
  using assms
  by (auto simp: setKey_def Let_def setKey_install_key split: if_splits option.splits sum.splits)

lemma setKey_marks:
  assumes "setKey transform rnd now (Some k) uct uts tk d = Some (True, d')"
      and "(case key (m_data d) of None \<Rightarrow> False | Some k0 \<Rightarrow> \<not> CompositeKey_isEmpty k0)
           \<or> transformedDatabaseKey (m_data d) = []"
  shows "m_modified d' = (m_modified d \<or> transformedDatabaseKey (m_data d') \<noteq> transformedDatabaseKey (m_data d))"
  using assms
  by (auto simp: setKey_def Let_def setKey_install_modified setKey_install_transformed rawKey_def
        setRawKey_def PasswordKey_new_def split: if_splits option.splits sum.splits)

lemma setKey_untransformed:
  assumes "setKey transform rnd now (Some k) uct uts False d = Some (True, d')"
  shows "transformedDatabaseKey (m_data d') = transformedDatabaseKey (m_data d)"
  using assms
  by (auto simp: setKey_def Let_def setKey_install_modified setKey_install_transformed rawKey_def
        setRawKey_def PasswordKey_new_def split: if_splits option.splits sum.splits)

text \<open>
  Claim C4, as amended. On a database whose current key is present and not empty, or
  whose cached transformed key is empty, a successful \<^verbatim>\<open>setKey\<close> with a present key
  marks the database modified if and only if the transformed key bytes after the call
  differ from those before it: the flag afterwards is the flag before or the change.
  And two successful calls with one and the same non-empty composite key and
  \<open>transformKey = False\<close>: the second call changes neither the flag nor the bytes, so
  a flag that is false after the first call is false after the second.
\<close>

theorem setKey_modified_iff_changed:
  "(setKey transform rnd now (Some k) uct uts tk d = Some (True, d')
      \<and> ((case key (m_data d) of None \<Rightarrow> False | Some k0 \<Rightarrow> \<not> CompositeKey_isEmpty k0)
           \<or> transformedDatabaseKey (m_data d) = [])
     \<longrightarrow> m_modified d' = (m_modified d \<or> transformedDatabaseKey (m_data d') \<noteq> transformedDatabaseKey (m_data d)))
   \<and> (\<not> CompositeKey_isEmpty k
        \<and> setKey transform rnd now (Some k) uct uts False d = Some (True, d1)
        \<and> setKey transform rnd2 now2 (Some k) uct2 uts2 False d1 = Some (True, d2)
     \<longrightarrow> m_modified d2 = m_modified d1
         \<and> transformedDatabaseKey (m_data d2) = transformedDatabaseKey (m_data d1))"
proof (intro conjI impI)
  assume "setKey transform rnd now (Some k) uct uts tk d = Some (True, d')
      \<and> ((case key (m_data d) of None \<Rightarrow> False | Some k0 \<Rightarrow> \<not> CompositeKey_isEmpty k0)
           \<or> transformedDatabaseKey (m_data d) = [])"
  then show "m_modified d' = (m_modified d \<or> transformedDatabaseKey (m_data d') \<noteq> transformedDatabaseKey (m_data d))"
    using setKey_marks by blast
next
  assume a: "\<not> CompositeKey_isEmpty k
        \<and> setKey transform rnd now (Some k) uct uts False d = Some (True, d1)
        \<and> setKey transform rnd2 now2 (Some k) uct2 uts2 False d1 = Some (True, d2)"
  then have k1: "key (m_data d1) = Some k" using setKey_key by blast
  from a have same: "transformedDatabaseKey (m_data d2) = transformedDatabaseKey (m_data d1)"
    using setKey_untransformed by blast
  from a k1 have "m_modified d2 = (m_modified d1 \<or> transformedDatabaseKey (m_data d2) \<noteq> transformedDatabaseKey (m_data d1))"
    using setKey_marks [of transform rnd2 now2 k uct2 uts2 False d1 d2] by simp
  with same show "m_modified d2 = m_modified d1" by simp
  from same show "transformedDatabaseKey (m_data d2) = transformedDatabaseKey (m_data d1)" .
qed

text \<open>
  Claim C4 as stated fails on \<open>kdf_db\<close>, whose key is the empty composite key with
  cached transformed bytes \<open>[0, 1, 1]\<close>: \<^verbatim>\<open>setKey\<close> with \<open>transformKey = False\<close>
  succeeds, keeps the bytes, and turns the modified flag from false to true. The old bytes
  are captured only under the guard of line 924, so they count as empty here.
\<close>

theorem setKey_marks_unchanged_key:
  "\<not> m_modified kdf_db
   \<and> map_option fst (setKey toy_transform toy_rnd 0 (Some password_key) False False False kdf_db) = Some True
   \<and> map_option (m_modified \<circ> snd)
        (setKey toy_transform toy_rnd 0 (Some password_key) False False False kdf_db) = Some True
   \<and> map_option (transformedDatabaseKey \<circ> m_data \<circ> snd)
        (setKey toy_transform toy_rnd 0 (Some password_key) False False False kdf_db)
       = Some (transformedDatabaseKey (m_data kdf_db))"
  by (simp add: setKey_def kdf_db_simps Let_def CompositeKey_create_def CompositeKey_isEmpty_def
        setKey_install_modified setKey_install_transformed PasswordKey_new_def rawKey_def)

lemma setKey_opened:
  "setKey toy_transform toy_rnd 0 (Some password_key) False False True opened_db
     = Some (True, setKey_install password_key [1, 2, 3, 0, 0, 1] [9] False 0 (opened_db\<lparr>m_keyError := []\<rparr>))"
  by (simp add: setKey_def opened_db_simps Let_def password_key_def CompositeKey_isEmpty_def
        toy_transform_def PasswordKey_new_def rawKey_def setRawKey_def opened_db_def
        Database_open_def toy_fs_def toy_file_def toy_reader_def
        toy_md5_def QFile_peek_def QFile_read_def QFile_size_def  fresh_db_def
        Database_new_def setRootGroup_def isModified_def canonicalFilePath_def
        setFilePath_def Group_new_def data0_def isInitialized_def kdf0_def)

lemma setKey_fresh:
  "setKey toy_transform toy_rnd 0 (Some password_key) False False False fresh_db
     = Some (True, setKey_install password_key [] [] False 0 (fresh_db\<lparr>m_keyError := []\<rparr>))"
  by (simp add: setKey_def fresh_db_data data0_def Let_def PasswordKey_new_def rawKey_def)

lemma setKey_fresh_again:
  "setKey toy_transform toy_rnd 0 (Some password_key) False False False
      (setKey_install password_key [] [] False 0 (fresh_db\<lparr>m_keyError := []\<rparr>))
     = Some (True, setKey_install password_key [] [] False 0
         (setKey_install password_key [] [] False 0 (fresh_db\<lparr>m_keyError := []\<rparr>)\<lparr>m_keyError := []\<rparr>))"
  by (simp add: setKey_def fresh_db_data data0_def Let_def PasswordKey_new_def rawKey_def
        setKey_install_key setKey_install_transformed password_key_def CompositeKey_isEmpty_def setRawKey_def)

text \<open>
  Re-keying \<open>opened_db\<close> with a fresh transformation changes the bytes and marks it;
  setting the same password key twice on \<open>fresh_db\<close> without transformation leaves it
  clean.
\<close>

theorem setKey_modified_iff_changed_witness:
  "(\<exists>d'. setKey toy_transform toy_rnd 0 (Some password_key) False False True opened_db = Some (True, d')
          \<and> m_modified d'
          \<and> transformedDatabaseKey (m_data d') \<noteq> transformedDatabaseKey (m_data opened_db))
   \<and> (\<exists>d1 d2. setKey toy_transform toy_rnd 0 (Some password_key) False False False fresh_db = Some (True, d1)
          \<and> setKey toy_transform toy_rnd 0 (Some password_key) False False False d1 = Some (True, d2)
          \<and> \<not> m_modified d1 \<and> \<not> m_modified d2)"
proof -
  let ?a = "setKey_install password_key [1, 2, 3, 0, 0, 1] [9] False 0 (opened_db\<lparr>m_keyError := []\<rparr>)"
  let ?b = "setKey_install password_key [] [] False 0 (fresh_db\<lparr>m_keyError := []\<rparr>)"
  let ?c = "setKey_install password_key [] [] False 0 (?b\<lparr>m_keyError := []\<rparr>)"
  have pre: "(case key (m_data opened_db) of None \<Rightarrow> False | Some k0 \<Rightarrow> \<not> CompositeKey_isEmpty k0)
               \<or> transformedDatabaseKey (m_data opened_db) = []"
    by (simp add: opened_db_simps password_key_def CompositeKey_isEmpty_def)
  have changed: "transformedDatabaseKey (m_data ?a) \<noteq> transformedDatabaseKey (m_data opened_db)"
    by (simp add: setKey_install_transformed opened_db_simps)
  have "m_modified ?a = (m_modified opened_db
          \<or> transformedDatabaseKey (m_data ?a) \<noteq> transformedDatabaseKey (m_data opened_db))"
    using setKey_modified_iff_changed [where transform = toy_transform and rnd = toy_rnd and now = 0
        and k = password_key and uct = False and uts = False and tk = True and d = opened_db and d' = ?a]
      setKey_opened pre by blast
  with changed have first: "m_modified ?a" by simp
  have nonempty: "\<not> CompositeKey_isEmpty password_key"
    by (simp add: password_key_def CompositeKey_isEmpty_def)
  have clean: "\<not> m_modified ?b"
    by (simp add: setKey_install_modified fresh_db_simps fresh_db_data data0_def rawKey_def)
  have "m_modified ?c = m_modified ?b"
    using setKey_modified_iff_changed [where transform = toy_transform and rnd = toy_rnd and now = 0
        and k = password_key and uct = False and uts = False and d = fresh_db and ?d1.0 = ?b
        and ?rnd2.0 = toy_rnd and ?now2.0 = 0 and ?uct2.0 = False and ?uts2.0 = False and ?d2.0 = ?c]
      setKey_fresh setKey_fresh_again nonempty by blast
  with clean have second: "\<not> m_modified ?c" by simp
  show ?thesis
    using setKey_opened first changed setKey_fresh setKey_fresh_again clean second by blast
qed

text \<open>
  Claim C5. After a successful \<^verbatim>\<open>changeKdf\<close> the stored transformed key is the
  transformation of the current composite key (the empty one that the call installs when
  the key was absent) under the new KDF with its freshly randomized seed, the new KDF is
  installed, the format version is what \<^verbatim>\<open>kdbxVersionRequired\<close> answers for the database
  with the new KDF (current version ignored, KDF not ignored), and the database is marked
  modified.
\<close>

theorem changeKdf_installs:
  assumes "changeKdf transform kdbxVersionRequired rnd newKdf d = (True, d')"
  shows "\<exists>k. k = (case key (m_data d) of None \<Rightarrow> CompositeKey_create | Some k0 \<Rightarrow> k0)
           \<and> key (m_data d') = Some k
           \<and> transform k (randomizeSeed rnd newKdf) = Inr (transformedDatabaseKey (m_data d'))
           \<and> kdf (m_data d') = Some (randomizeSeed rnd newKdf)
           \<and> formatVersion (m_data d') =
               kdbxVersionRequired (d\<lparr>m_data := (m_data d)\<lparr>key := Some k, kdf := Some (randomizeSeed rnd newKdf)\<rparr>\<rparr>) True False
           \<and> m_modified d'"
  using assms
  by (auto simp: changeKdf_def setKdf_def setFormatVersion_def setRawKey_def Let_def split: sum.splits)

theorem changeKdf_installs_witness:
  "changeKdf toy_transform toy_version toy_rnd kdf0 fresh_db
     = (True, snd (changeKdf toy_transform toy_version toy_rnd kdf0 fresh_db))
   \<and> transformedDatabaseKey (m_data (snd (changeKdf toy_transform toy_version toy_rnd kdf0 fresh_db)))
       = [0, 1, 1]
   \<and> toy_transform CompositeKey_create (randomizeSeed toy_rnd kdf0) = Inr [0, 1, 1]
   \<and> formatVersion (m_data (snd (changeKdf toy_transform toy_version toy_rnd kdf0 fresh_db))) = 0x00040000
   \<and> m_modified (snd (changeKdf toy_transform toy_version toy_rnd kdf0 fresh_db))"
proof -
  have run: "changeKdf toy_transform toy_version toy_rnd kdf0 fresh_db
     = (True, snd (changeKdf toy_transform toy_version toy_rnd kdf0 fresh_db))"
    by (simp add: changeKdf_def toy_transform_def Let_def)
  have t: "toy_transform CompositeKey_create (randomizeSeed toy_rnd kdf0) = Inr [0, 1, 1]"
    by (simp add: toy_transform_def CompositeKey_create_def randomizeSeed_def randomArray_def
          toy_rnd_def kdf0_def upt_rec)
  from changeKdf_installs [OF run] t show ?thesis
    using run by (simp add: fresh_db_data data0_def toy_version_def)
qed

subsection \<open>The sanity check of writeDatabase\<close>

text \<open>
  Claim C1 at a failing input. \<open>opened_db\<close> is initialized; \<open>idle_writer\<close> reports no
  error and leaves the state bag, hence the transformed key, as it was. \<^verbatim>\<open>writeDatabase\<close>
  returns true with no error text, and the transformed key afterwards equals the one
  before: the old key is captured only when the composite key is empty (line 466), so for
  an initialized database the comparison of line 485 is made against no bytes.
\<close>

theorem writeDatabase_accepts_unchanged_key:
  "isInitialized opened_db
   \<and> w_data (idle_writer (setEmitModified False opened_db)) = m_data opened_db
   \<and> map_option (fst \<circ> fst) (writeDatabase idle_writer opened_db) = Some True
   \<and> map_option (fst \<circ> snd \<circ> fst) (writeDatabase idle_writer opened_db) = Some None
   \<and> map_option (transformedDatabaseKey \<circ> m_data \<circ> snd \<circ> snd \<circ> fst) (writeDatabase idle_writer opened_db)
       = Some (transformedDatabaseKey (m_data opened_db))"
  by (simp add: opened_db_initialized writeDatabase_def idle_writer_def opened_db_simps
        password_key_def CompositeKey_isEmpty_def Let_def rawKey_def setRawKey_def PasswordKey_new_def)

subsection \<open>Opening: the hash of the first block\<close>

text \<open>
  A read that delivers \<open>N\<close> bytes delivers the first \<open>N\<close> bytes of the file; a file
  shorter than \<open>N\<close> never delivers \<open>N\<close>.
\<close>

lemma QFile_read_full:
  assumes "length (QFile_read f N) = N"
  shows "QFile_read f N = take N (contents f)"
  using assms by (auto simp: QFile_read_def min_def split: option.splits if_splits)

lemma QFile_read_short: "QFile_size f < N \<Longrightarrow> length (QFile_read f N) \<noteq> N"
  by (auto simp: QFile_read_def QFile_size_def split: option.splits)

text \<open>
  Claim C6. \<^verbatim>\<open>open\<close> on an existing file that can be opened for reading. If the peek
  delivers all \<open>N\<close> bytes, these are the first \<open>N\<close> bytes of the file and the file
  block hash is their MD5 when the call returns. If the file is shorter than \<open>N\<close> bytes,
  the hash is left empty and the call goes on to the reader: it returns what the reader
  reports. If the peek delivers fewer than \<open>N\<close> bytes although the file has at least
  \<open>N\<close>, the call returns false with the read error.
\<close>

theorem open_file_block_hash:
  assumes "files fs path = Some f" and "openable f"
  shows "(length (QFile_peek f N) = N \<longrightarrow>
            QFile_peek f N = take N (contents f)
            \<and> m_fileBlockHash (snd (snd (Database_open md5 N fs reader path k d))) = md5 (take N (contents f)))
       \<and> (QFile_size f < N \<longrightarrow>
            m_fileBlockHash (snd (snd (Database_open md5 N fs reader path k d))) = []
            \<and> fst (Database_open md5 N fs reader path k d)
                = r_ok (reader f k ((setEmitModified False d)\<lparr>m_fileBlockHash := []\<rparr>))
            \<and> fst (snd (Database_open md5 N fs reader path k d))
                = (let r = reader f k ((setEmitModified False d)\<lparr>m_fileBlockHash := []\<rparr>)
                   in if r_ok r then None
                      else Some (''Error while reading the database: '' @ r_errorString r)))
       \<and> (length (QFile_peek f N) < N \<and> N \<le> QFile_size f \<longrightarrow>
            fst (Database_open md5 N fs reader path k d) = False
            \<and> fst (snd (Database_open md5 N fs reader path k d)) = Some ''Database file read error.'')"
proof (intro conjI impI)
  assume full: "length (QFile_peek f N) = N"
  then show "QFile_peek f N = take N (contents f)"
    unfolding QFile_peek_def by (rule QFile_read_full)
  with full show "m_fileBlockHash (snd (snd (Database_open md5 N fs reader path k d))) = md5 (take N (contents f))"
    using assms by (simp add: Database_open_def Let_def)
next
  assume short: "QFile_size f < N"
  then have ne: "length (QFile_peek f N) \<noteq> N"
    by (simp add: QFile_peek_def QFile_read_short)
  from short ne show "m_fileBlockHash (snd (snd (Database_open md5 N fs reader path k d))) = []"
    using assms by (simp add: Database_open_def Let_def)
  from short ne show "fst (Database_open md5 N fs reader path k d)
                = r_ok (reader f k ((setEmitModified False d)\<lparr>m_fileBlockHash := []\<rparr>))"
    using assms by (simp add: Database_open_def Let_def)
  from short ne show "fst (snd (Database_open md5 N fs reader path k d))
                = (let r = reader f k ((setEmitModified False d)\<lparr>m_fileBlockHash := []\<rparr>)
                   in if r_ok r then None
                      else Some (''Error while reading the database: '' @ r_errorString r))"
    using assms by (simp add: Database_open_def Let_def)
next
  assume "length (QFile_peek f N) < N \<and> N \<le> QFile_size f"
  then show "fst (Database_open md5 N fs reader path k d) = False"
    using assms by (simp add: Database_open_def Let_def)
next
  assume "length (QFile_peek f N) < N \<and> N \<le> QFile_size f"
  then show "fst (snd (Database_open md5 N fs reader path k d)) = Some ''Database file read error.''"
    using assms by (simp add: Database_open_def Let_def)
qed

text \<open>
  The container file of five bytes: with \<open>N = 4\<close> the hash is the digest of its first
  four bytes; with \<open>N = 8\<close> the hash stays empty and the open succeeds; on a device that
  hands over two bytes only, the open fails with the read error.
\<close>

theorem open_file_block_hash_witness:
  "m_fileBlockHash (snd (snd (Database_open toy_md5 4 (toy_fs (Some toy_file)) toy_reader toy_path
       (Some password_key) fresh_db))) = [4, 1, 2]
   \<and> m_fileBlockHash (snd (snd (Database_open toy_md5 8 (toy_fs (Some toy_file)) toy_reader toy_path
       (Some password_key) fresh_db))) = []
   \<and> fst (Database_open toy_md5 8 (toy_fs (Some toy_file)) toy_reader toy_path
       (Some password_key) fresh_db) = True
   \<and> fst (Database_open toy_md5 4 (toy_fs (Some (toy_file\<lparr>readFault := Some 2\<rparr>))) toy_reader toy_path
       (Some password_key) fresh_db) = False
   \<and> fst (snd (Database_open toy_md5 4 (toy_fs (Some (toy_file\<lparr>readFault := Some 2\<rparr>))) toy_reader toy_path
       (Some password_key) fresh_db)) = Some ''Database file read error.''"
  using open_file_block_hash [of "toy_fs (Some toy_file)" toy_path toy_file 4 toy_md5 toy_reader
          "Some password_key" fresh_db]
        open_file_block_hash [of "toy_fs (Some toy_file)" toy_path toy_file 8 toy_md5 toy_reader
          "Some password_key" fresh_db]
        open_file_block_hash [of "toy_fs (Some (toy_file\<lparr>readFault := Some 2\<rparr>))" toy_path
          "toy_file\<lparr>readFault := Some 2\<rparr>" 4 toy_md5 toy_reader "Some password_key" fresh_db]
  by (simp add: toy_fs_def toy_file_def QFile_peek_def QFile_read_def QFile_size_def toy_md5_def
        toy_reader_def)

subsection \<open>Saving: the external-change check\<close>

text \<open>
  Claim C2. \<^verbatim>\<open>saveAs\<close> on a database that is not being saved and is initialized (the two
  preconditions the code checks before), to its bound path, with a non-empty file block
  hash and \<open>ignoreFileChangesUntilSaved\<close> false, the file being there and openable. The
  first \<open>N\<close> bytes of the file are read again: a read that delivers \<open>N\<close> bytes
  delivers them. If their MD5 differs from the file block hash, the call returns false
  with the unmerged-changes text and its one effect is the queued
  \<^verbatim>\<open>databaseFileChanged(true)\<close>. If the read delivers fewer than \<open>N\<close> bytes although
  the file has at least \<open>N\<close>, the call returns false with the read error.
\<close>

theorem saveAs_external_change:
  assumes "\<not> isSaving d" and "isInitialized d"
      and "path = filePath (m_data d)" and "m_fileBlockHash d \<noteq> []"
      and "\<not> m_ignoreFileChangesUntilSaved d"
      and "files fs path = Some f" and "openable f"
  shows "(length (QFile_read f N) = N \<longrightarrow> QFile_read f N = take N (contents f))
       \<and> (length (QFile_read f N) = N \<and> md5 (take N (contents f)) \<noteq> m_fileBlockHash d \<longrightarrow>
            saveAs md5 N fs io writer rnd path action backupFilePath d
              = Some (False, Some ''Database file has unmerged changes.'',
                      effect (InvokeQueued (databaseFileChanged True)) d))
       \<and> (length (QFile_read f N) < N \<and> N \<le> QFile_size f \<longrightarrow>
            saveAs md5 N fs io writer rnd path action backupFilePath d
              = Some (False, Some ''Database file read error.'', d))"
proof (intro conjI impI)
  assume "length (QFile_read f N) = N"
  then show "QFile_read f N = take N (contents f)" by (rule QFile_read_full)
next
  assume a: "length (QFile_read f N) = N \<and> md5 (take N (contents f)) \<noteq> m_fileBlockHash d"
  then have "QFile_read f N = take N (contents f)" by (intro QFile_read_full) simp
  with a show "saveAs md5 N fs io writer rnd path action backupFilePath d
              = Some (False, Some ''Database file has unmerged changes.'',
                      effect (InvokeQueued (databaseFileChanged True)) d)"
    using assms by (auto simp: saveAs_def externalChangeCheck_def Let_def)
next
  assume "length (QFile_read f N) < N \<and> N \<le> QFile_size f"
  then show "saveAs md5 N fs io writer rnd path action backupFilePath d
              = Some (False, Some ''Database file read error.'', d)"
    using assms by (auto simp: saveAs_def externalChangeCheck_def Let_def)
qed

text \<open>
  \<open>opened_db\<close> saved to its own path after the file's bytes were replaced, and on a
  device that hands over two bytes only.
\<close>

theorem saveAs_external_change_witness:
  "saveAs toy_md5 4 (toy_fs (Some (toy_file\<lparr>contents := [7, 7, 7, 7, 7]\<rparr>))) toy_io toy_writer toy_rnd
      toy_path Atomic None opened_db
     = Some (False, Some ''Database file has unmerged changes.'',
             effect (InvokeQueued (databaseFileChanged True)) opened_db)
   \<and> saveAs toy_md5 4 (toy_fs (Some (toy_file\<lparr>readFault := Some 2\<rparr>))) toy_io toy_writer toy_rnd
      toy_path Atomic None opened_db
     = Some (False, Some ''Database file read error.'', opened_db)"
  using saveAs_external_change [of opened_db toy_path "toy_fs (Some (toy_file\<lparr>contents := [7, 7, 7, 7, 7]\<rparr>))"
          "toy_file\<lparr>contents := [7, 7, 7, 7, 7]\<rparr>" 4 toy_md5 toy_io toy_writer toy_rnd Atomic None]
        saveAs_external_change [of opened_db toy_path "toy_fs (Some (toy_file\<lparr>readFault := Some 2\<rparr>))"
          "toy_file\<lparr>readFault := Some 2\<rparr>" 4 toy_md5 toy_io toy_writer toy_rnd Atomic None]
  by (simp add: opened_db_simps opened_db_initialized isSaving_def toy_fs_def toy_file_def
        QFile_read_def QFile_size_def toy_md5_def)

subsection \<open>Saving: the write phase\<close>

lemma saveAs_prepare_fields [simp]:
  "m_data (saveAs_prepare rnd d) = m_data d"
  "effects (saveAs_prepare rnd d) = effects d @ [WatcherStop]"
  "customData (m_metadata (saveAs_prepare rnd d)) RandomSlug
     = Some (toHex (randomArray rnd (randomUIntRange rnd 64 512)))"
  by (simp_all add: saveAs_prepare_def CustomData_set_def Let_def)

lemma writeDatabase_frame:
  assumes "key (m_data d) = Some k"
  shows "\<exists>ok err d' w. writeDatabase writer d = Some ((ok, err, d'), w)
           \<and> effects d' = effects d \<and> m_metadata d' = m_metadata d"
  using assms by (auto simp: writeDatabase_def Let_def split: option.splits)

lemma performSave_frame:
  assumes "key (m_data d) = Some k"
  shows "\<exists>ok err d'. performSave md5 N io writer p action backupFilePath d = Some (ok, err, d')
           \<and> effects d' = effects d @ (case backupFilePath of None \<Rightarrow> [] | Some b \<Rightarrow> [BackupDatabase p b])
           \<and> m_metadata d' = m_metadata d"
proof -
  let ?d0 = "case backupFilePath of None \<Rightarrow> d | Some b \<Rightarrow> effect (BackupDatabase p b) d"
  have k0: "key (m_data ?d0) = Some k" using assms by (simp split: option.splits)
  have e0: "effects ?d0 = effects d @ (case backupFilePath of None \<Rightarrow> [] | Some b \<Rightarrow> [BackupDatabase p b])"
    by (simp split: option.splits)
  have m0: "m_metadata ?d0 = m_metadata d" by (simp split: option.splits)
  from writeDatabase_frame [OF k0, of writer] obtain ok err d' w where
    w: "writeDatabase writer ?d0 = Some ((ok, err, d'), w)"
    and e: "effects d' = effects ?d0" and m: "m_metadata d' = m_metadata ?d0" by blast
  show ?thesis
    unfolding performSave_def Let_def
    by (cases action) (auto simp: w e m e0 m0)
qed

lemma isInitialized_key:
  assumes "isInitialized d"
  shows "\<exists>k. key (m_data d) = Some k"
  using assms by (simp add: isInitialized_def split: option.splits)

lemma saveAs_reaches_write:
  assumes "\<not> isSaving d" and "isInitialized d" and "externalChangeCheck md5 N fs path d = None"
  shows "saveAs md5 N fs io writer rnd path action backupFilePath d
           = saveAs_write md5 N fs io writer rnd path action backupFilePath d"
  using assms by (simp add: saveAs_def)

lemma setFilePath_effects:
  "\<exists>es. effects (setFilePath p d) = effects d @ es \<and> (\<forall>s. InvokeQueued s \<notin> set es)"
  by (simp add: setFilePath_def Let_def)

lemma setFilePath_ignore:
  "\<not> m_ignoreFileChangesUntilSaved d \<Longrightarrow> \<not> m_ignoreFileChangesUntilSaved (setFilePath p d)"
  by (simp add: setFilePath_def Let_def)

lemma length_toHex: "length (toHex bs) = 2 * length bs"
  by (induction bs) (simp_all add: toHex_def)

lemma length_randomArray: "length (randomArray r n) = n"
  by (simp add: randomArray_def)

lemma randomUIntRange_bounds:
  assumes "lo \<le> hi"
  shows "lo \<le> randomUIntRange r lo hi \<and> randomUIntRange r lo hi \<le> hi"
proof
  show "lo \<le> randomUIntRange r lo hi" by (simp add: randomUIntRange_def)
next
  have "draw r mod Suc (hi - lo) < Suc (hi - lo)" by (rule mod_less_divisor) simp
  then have "draw r mod Suc (hi - lo) \<le> hi - lo" by (simp only: less_Suc_eq_le)
  then have "lo + draw r mod Suc (hi - lo) \<le> lo + (hi - lo)" by (rule add_left_mono)
  also have "lo + (hi - lo) = hi" using assms by simp
  finally show "randomUIntRange r lo hi \<le> hi" by (simp add: randomUIntRange_def)
qed

lemma randomUIntRange_onto:
  assumes "lo \<le> n" and "n \<le> hi"
  shows "randomUIntRange (r\<lparr>draw := n - lo\<rparr>) lo hi = n"
  using assms by (simp add: randomUIntRange_def)

lemma saveAs_write_frame:
  assumes "key (m_data d) = Some k"
  shows "\<exists>ok err d3 d'.
           performSave md5 N io writer (realFilePath fs path) action backupFilePath (saveAs_prepare rnd d)
             = Some (ok, err, d3)
         \<and> saveAs_write md5 N fs io writer rnd path action backupFilePath d = Some (ok, err, d')
         \<and> m_metadata d3 = m_metadata (saveAs_prepare rnd d)
         \<and> m_metadata d' = m_metadata (saveAs_prepare rnd d)
         \<and> (\<exists>es. effects d' = effects d @ es \<and> (\<forall>s. InvokeQueued s \<notin> set es))"
proof -
  from assms have "key (m_data (saveAs_prepare rnd d)) = Some k" by simp
  from performSave_frame [OF this, of md5 N io writer "realFilePath fs path" action backupFilePath]
  obtain ok err d3 where
    p: "performSave md5 N io writer (realFilePath fs path) action backupFilePath (saveAs_prepare rnd d)
          = Some (ok, err, d3)"
    and e: "effects d3 = effects (saveAs_prepare rnd d)
              @ (case backupFilePath of None \<Rightarrow> [] | Some b \<Rightarrow> [BackupDatabase (realFilePath fs path) b])"
    and m: "m_metadata d3 = m_metadata (saveAs_prepare rnd d)"
    by blast
  obtain es where es: "effects (setFilePath path d3) = effects d3 @ es" "\<forall>s. InvokeQueued s \<notin> set es"
    using setFilePath_effects by blast
  show ?thesis
  proof (cases ok)
    case True
    with p e m es show ?thesis
      by (auto simp: saveAs_write_def Let_def split: option.splits)
  next
    case False
    with p e m show ?thesis
      by (auto simp: saveAs_write_def Let_def split: option.splits)
  qed
qed

lemma toy_check_passes:
  "externalChangeCheck toy_md5 4 (toy_fs (Some toy_file)) toy_path opened_db = None"
  by (simp add: externalChangeCheck_def opened_db_simps toy_fs_def toy_file_def QFile_read_def
        QFile_size_def toy_md5_def Let_def)

lemma toy_realFilePath: "realFilePath (toy_fs f) p = p"
  by (simp add: realFilePath_def toy_fs_def)

lemma toy_performSave_ok:
  "map_option fst (performSave toy_md5 4 toy_io toy_writer toy_path Atomic None
      (saveAs_prepare toy_rnd opened_db)) = Some True"
  by (simp add: performSave_def writeDatabase_def toy_io_def toy_writer_def opened_db_simps
        password_key_def CompositeKey_isEmpty_def rawKey_def PasswordKey_new_def Let_def)

lemma toy_performSave_fails:
  "map_option fst (performSave toy_md5 4 (toy_io\<lparr>saveFile_open := False\<rparr>) toy_writer toy_path Atomic None
      (saveAs_prepare toy_rnd opened_db)) = Some False"
  by (simp add: performSave_def toy_io_def Let_def)

text \<open>
  Claim C10. \<^verbatim>\<open>saveAs\<close> on a database that is not being saved and is initialized, to its
  bound path, with a non-empty file block hash and \<open>ignoreFileChangesUntilSaved\<close> false,
  when no file exists at the path: the external-change check lets the save pass, the call
  is its write phase, \<^verbatim>\<open>performSave\<close> runs, and none of the effects of the call is a
  queued invocation, so no external change is reported.
\<close>

theorem saveAs_deleted_file_skips_check:
  assumes "\<not> isSaving d" and "isInitialized d"
      and "path = filePath (m_data d)" and "m_fileBlockHash d \<noteq> []"
      and "\<not> m_ignoreFileChangesUntilSaved d"
      and "files fs path = None"
  shows "externalChangeCheck md5 N fs path d = None
       \<and> saveAs md5 N fs io writer rnd path action backupFilePath d
           = saveAs_write md5 N fs io writer rnd path action backupFilePath d
       \<and> (\<exists>ok err d3 d'.
             performSave md5 N io writer (realFilePath fs path) action backupFilePath (saveAs_prepare rnd d)
               = Some (ok, err, d3)
           \<and> saveAs md5 N fs io writer rnd path action backupFilePath d = Some (ok, err, d')
           \<and> (\<exists>es. effects d' = effects d @ es \<and> (\<forall>s. InvokeQueued s \<notin> set es)))"
proof -
  have c: "externalChangeCheck md5 N fs path d = None"
    using assms by (simp add: externalChangeCheck_def)
  from assms(2) obtain k where k: "key (m_data d) = Some k" using isInitialized_key by blast
  have s: "saveAs md5 N fs io writer rnd path action backupFilePath d
             = saveAs_write md5 N fs io writer rnd path action backupFilePath d"
    using assms(1,2) c by (rule saveAs_reaches_write)
  from saveAs_write_frame [OF k, of md5 N io writer fs path action backupFilePath rnd]
  show ?thesis using c s by auto
qed

text \<open>\<open>opened_db\<close> saved to its own path after the file was deleted.\<close>

theorem saveAs_deleted_file_skips_check_witness:
  "externalChangeCheck toy_md5 4 (toy_fs None) toy_path opened_db = None
   \<and> saveAs toy_md5 4 (toy_fs None) toy_io toy_writer toy_rnd toy_path Atomic None opened_db
       = saveAs_write toy_md5 4 (toy_fs None) toy_io toy_writer toy_rnd toy_path Atomic None opened_db
   \<and> (\<exists>ok err d' es. saveAs toy_md5 4 (toy_fs None) toy_io toy_writer toy_rnd toy_path Atomic None opened_db
                        = Some (ok, err, d')
        \<and> effects d' = effects opened_db @ es \<and> (\<forall>s. InvokeQueued s \<notin> set es))"
proof -
  have free: "\<not> isSaving opened_db" by (simp add: isSaving_def opened_db_simps)
  have same: "toy_path = filePath (m_data opened_db)" by (simp add: opened_db_simps)
  have hash: "m_fileBlockHash opened_db \<noteq> []" by (simp add: opened_db_simps)
  have heed: "\<not> m_ignoreFileChangesUntilSaved opened_db" by (simp add: opened_db_simps)
  have gone: "files (toy_fs None) toy_path = None" by (simp add: toy_fs_def)
  from saveAs_deleted_file_skips_check [where ?md5.0 = toy_md5 and N = 4 and io = toy_io
        and writer = toy_writer and rnd = toy_rnd and action = Atomic and backupFilePath = None,
      OF free opened_db_initialized same hash heed gone]
  show ?thesis by blast
qed

text \<open>
  Claim C3. A \<^verbatim>\<open>saveAs\<close> call that reaches the write phase (not saving, initialized,
  external-change check passed) returns what \<^verbatim>\<open>performSave\<close> returns on the prepared
  object. If that write succeeded, the path is the target, the database is clean
  (modified and \<open>hasNonDataChange\<close> false), \<open>ignoreFileChangesUntilSaved\<close> is false,
  and the last effect is the start of the watcher on the resolved path. If the write
  failed, the database is marked modified and the effects of the call are the stop of the
  watcher and, when a backup path was given, the backup: the watcher is not started again.
\<close>

theorem saveAs_settles:
  assumes "\<not> isSaving d" and "isInitialized d" and "externalChangeCheck md5 N fs path d = None"
  shows "\<exists>ok err d3 d'.
           performSave md5 N io writer (realFilePath fs path) action backupFilePath (saveAs_prepare rnd d)
             = Some (ok, err, d3)
         \<and> saveAs md5 N fs io writer rnd path action backupFilePath d = Some (ok, err, d')
         \<and> (if ok
            then filePath (m_data d') = path \<and> \<not> m_modified d' \<and> \<not> m_hasNonDataChange d'
                 \<and> \<not> m_ignoreFileChangesUntilSaved d'
                 \<and> last (effects d') = WatcherStart (realFilePath fs path) 30 1
            else m_modified d'
                 \<and> effects d' = effects d @ WatcherStop #
                      (case backupFilePath of None \<Rightarrow> []
                       | Some b \<Rightarrow> [BackupDatabase (realFilePath fs path) b]))"
proof -
  from assms(2) obtain k where "key (m_data d) = Some k" using isInitialized_key by blast
  then have "key (m_data (saveAs_prepare rnd d)) = Some k" by simp
  from performSave_frame [OF this, of md5 N io writer "realFilePath fs path" action backupFilePath]
  obtain ok err d3 where
    p: "performSave md5 N io writer (realFilePath fs path) action backupFilePath (saveAs_prepare rnd d)
          = Some (ok, err, d3)"
    and e: "effects d3 = effects (saveAs_prepare rnd d)
              @ (case backupFilePath of None \<Rightarrow> [] | Some b \<Rightarrow> [BackupDatabase (realFilePath fs path) b])"
    by blast
  have s: "saveAs md5 N fs io writer rnd path action backupFilePath d
             = saveAs_write md5 N fs io writer rnd path action backupFilePath d"
    using assms by (rule saveAs_reaches_write)
  show ?thesis
  proof (cases ok)
    case True
    with p s show ?thesis by (auto simp: saveAs_write_def Let_def)
  next
    case False
    with p s e show ?thesis by (auto simp: saveAs_write_def Let_def)
  qed
qed

text \<open>
  \<open>opened_db\<close> saved to its own, unchanged file: once with a file system that
  accepts the atomic write, once with a save file that cannot be opened.
\<close>

theorem saveAs_settles_witness:
  "(\<exists>err d'. saveAs toy_md5 4 (toy_fs (Some toy_file)) toy_io toy_writer toy_rnd toy_path Atomic None
                opened_db = Some (True, err, d')
        \<and> filePath (m_data d') = toy_path \<and> \<not> m_modified d' \<and> \<not> m_hasNonDataChange d'
        \<and> \<not> m_ignoreFileChangesUntilSaved d'
        \<and> last (effects d') = WatcherStart toy_path 30 1)
   \<and> (\<exists>err d'. saveAs toy_md5 4 (toy_fs (Some toy_file)) (toy_io\<lparr>saveFile_open := False\<rparr>) toy_writer
                toy_rnd toy_path Atomic None opened_db = Some (False, err, d')
        \<and> m_modified d' \<and> effects d' = effects opened_db @ [WatcherStop])"
proof -
  have free: "\<not> isSaving opened_db" by (simp add: isSaving_def opened_db_simps)
  from saveAs_settles [where io = toy_io and writer = toy_writer and action = Atomic
        and backupFilePath = None and rnd = toy_rnd,
      OF free opened_db_initialized toy_check_passes]
  have good: "\<exists>err d'. saveAs toy_md5 4 (toy_fs (Some toy_file)) toy_io toy_writer toy_rnd toy_path Atomic None
                opened_db = Some (True, err, d')
        \<and> filePath (m_data d') = toy_path \<and> \<not> m_modified d' \<and> \<not> m_hasNonDataChange d'
        \<and> \<not> m_ignoreFileChangesUntilSaved d'
        \<and> last (effects d') = WatcherStart toy_path 30 1"
    using toy_performSave_ok by (auto simp: toy_realFilePath)
  from saveAs_settles [where io = "toy_io\<lparr>saveFile_open := False\<rparr>" and writer = toy_writer
        and action = Atomic and backupFilePath = None and rnd = toy_rnd,
      OF free opened_db_initialized toy_check_passes]
  have bad: "\<exists>err d'. saveAs toy_md5 4 (toy_fs (Some toy_file)) (toy_io\<lparr>saveFile_open := False\<rparr>) toy_writer
                toy_rnd toy_path Atomic None opened_db = Some (False, err, d')
        \<and> m_modified d' \<and> effects d' = effects opened_db @ [WatcherStop]"
    using toy_performSave_fails by (auto simp: toy_realFilePath)
  from good bad show ?thesis by blast
qed

text \<open>
  The hexadecimal encoding can be read back, so it loses nothing; and among the draws
  below \<open>m * k\<close> exactly \<open>k\<close> fall into each residue class modulo \<open>m\<close>, so the
  generator answers each value of its interval for equally many draws.
\<close>

lemma hexValue_table: "list_all (\<lambda>k. hexValue (hexDigit k) = k) [0..<16]"
  by code_simp

lemma hexValue_hexDigit:
  assumes "k < 16"
  shows "hexValue (hexDigit k) = k"
proof -
  from assms have "k \<in> set [0..<16]" by simp
  with hexValue_table show ?thesis by (simp only: list_all_iff)
qed

lemma byte_of_digits:
  fixes b :: "8 word"
  shows "word_of_nat (16 * hexValue (hexDigit (unat b div 16)) + hexValue (hexDigit (unat b mod 16))) = b"
proof -
  have "unat b < 256" using unsigned_less [of b] by simp
  then have hi: "unat b div 16 < 16" by simp
  have lo: "unat b mod 16 < 16" by simp
  have "16 * (unat b div 16) + unat b mod 16 = unat b" by simp
  with hi lo show ?thesis by (simp add: hexValue_hexDigit)
qed

lemma fromHex_toHex: "fromHex (toHex bs) = bs"
proof (induction bs)
  case Nil
  show ?case by (simp add: toHex_def)
next
  case (Cons b bs)
  have "toHex (b # bs) = hexDigit (unat b div 16) # hexDigit (unat b mod 16) # toHex bs"
    by (simp add: toHex_def)
  then have "fromHex (toHex (b # bs))
      = word_of_nat (16 * hexValue (hexDigit (unat b div 16)) + hexValue (hexDigit (unat b mod 16)))
          # fromHex (toHex bs)"
    by (simp only: fromHex.simps)
  with Cons show ?case by (simp only: byte_of_digits)
qed

lemma card_residue_class:
  assumes "a < m"
  shows "card {x. x < m * k \<and> x mod m = a} = k"
proof -
  have eq: "{x. x < m * k \<and> x mod m = a} = (\<lambda>j. a + m * j) ` {..<k}"
  proof (intro set_eqI iffI)
    fix x assume "x \<in> {x. x < m * k \<and> x mod m = a}"
    then have lt: "x < k * m" and r: "x mod m = a" by (simp_all add: mult.commute)
    from lt have "x div m < k" by (rule less_mult_imp_div_less)
    moreover have "x = a + m * (x div m)" using r mult_div_mod_eq [of m x] by simp
    ultimately show "x \<in> (\<lambda>j. a + m * j) ` {..<k}" by blast
  next
    fix x assume "x \<in> (\<lambda>j. a + m * j) ` {..<k}"
    then obtain j where j: "j < k" and x: "x = a + m * j" by blast
    from assms have "a + m * j < m * Suc j" by simp
    also from j have "m * Suc j \<le> m * k" by (intro mult_le_mono2) simp
    finally have "x < m * k" using x by simp
    moreover from assms x have "x mod m = a" by simp
    ultimately show "x \<in> {x. x < m * k \<and> x mod m = a}" by simp
  qed
  from assms have "inj_on (\<lambda>j. a + m * j) {..<k}" by (auto simp: inj_on_def)
  then have "card ((\<lambda>j. a + m * j) ` {..<k}) = k" by (simp add: card_image)
  with eq show ?thesis by simp
qed

lemma randomUIntRange_uniform:
  assumes "lo \<le> n" and "n \<le> hi"
  shows "card {x. x < (hi - lo + 1) * k \<and> randomUIntRange (r\<lparr>draw := x\<rparr>) lo hi = n} = k"
proof -
  from assms have a: "n - lo < hi - lo + 1" by simp
  from assms have "\<And>x. (lo + x mod (hi - lo + 1) = n) = (x mod (hi - lo + 1) = n - lo)" by auto
  then have "{x. x < (hi - lo + 1) * k \<and> randomUIntRange (r\<lparr>draw := x\<rparr>) lo hi = n}
        = {x. x < (hi - lo + 1) * k \<and> x mod (hi - lo + 1) = n - lo}"
    by (simp add: randomUIntRange_def)
  with card_residue_class [OF a, of k] show ?thesis by simp
qed

lemma toHex_sample: "toHex [0x0a, 0xff, 0x10] = ''0aff10''"
  by (simp add: toHex_def hexDigit_def)

lemma toHex_inject:
  assumes "toHex as = toHex bs"
  shows "as = bs"
proof -
  from assms have "fromHex (toHex as) = fromHex (toHex bs)" by simp
  then show ?thesis by (simp only: fromHex_toHex)
qed

lemma slug_length_iff:
  "(\<exists>bs. customData (m_metadata (saveAs_prepare r d)) RandomSlug = Some (toHex bs) \<and> length bs = n)
     = (randomUIntRange r 64 512 = n)"
proof
  assume "\<exists>bs. customData (m_metadata (saveAs_prepare r d)) RandomSlug = Some (toHex bs) \<and> length bs = n"
  then obtain bs where s: "toHex (randomArray r (randomUIntRange r 64 512)) = toHex bs"
    and l: "length bs = n" by auto
  from s have "randomArray r (randomUIntRange r 64 512) = bs" by (rule toHex_inject)
  with l show "randomUIntRange r 64 512 = n" using length_randomArray [of r "randomUIntRange r 64 512"] by simp
next
  assume "randomUIntRange r 64 512 = n"
  then show "\<exists>bs. customData (m_metadata (saveAs_prepare r d)) RandomSlug = Some (toHex bs) \<and> length bs = n"
    by (auto simp: length_randomArray)
qed

lemma slug_length_uniform:
  assumes "64 \<le> n" and "n \<le> 512"
  shows "card {x. x < 449 * k \<and>
            (\<exists>bs. customData (m_metadata (saveAs_prepare (rnd\<lparr>draw := x\<rparr>) d)) RandomSlug = Some (toHex bs)
                  \<and> length bs = n)} = k"
proof -
  have "{x. x < 449 * k \<and>
            (\<exists>bs. customData (m_metadata (saveAs_prepare (rnd\<lparr>draw := x\<rparr>) d)) RandomSlug = Some (toHex bs)
                  \<and> length bs = n)}
        = {x. x < (512 - 64 + 1) * k \<and> randomUIntRange (rnd\<lparr>draw := x\<rparr>) 64 512 = n}"
    by (simp only: slug_length_iff) simp
  with randomUIntRange_uniform [OF assms, of k rnd] show ?thesis by (simp only:)
qed

text \<open>
  Claim C7. A \<^verbatim>\<open>saveAs\<close> call that reaches the write phase draws a length in the
  closed interval from 64 to 512, takes that many random bytes, and stores their
  hexadecimal encoding (twice as many characters, from which the bytes are read back)
  under the key \<open>KPXC_RANDOM_SLUG\<close> of the custom data, in the object that
  \<^verbatim>\<open>performSave\<close> is given, hence before the write; the slug is still there when
  \<^verbatim>\<open>performSave\<close> and the call return. The length is chosen uniformly: for each
  length \<open>n\<close> of the interval and each \<open>k\<close>, of the \<open>449 * k\<close> draws below that
  number exactly \<open>k\<close> make the call store a slug of \<open>n\<close> raw bytes, so equally likely
  draws give equally likely lengths.
\<close>

theorem saveAs_random_slug:
  assumes "\<not> isSaving d" and "isInitialized d" and "externalChangeCheck md5 N fs path d = None"
  shows "\<exists>len slug ok err d3 d'.
           len = randomUIntRange rnd 64 512 \<and> 64 \<le> len \<and> len \<le> 512
         \<and> slug = randomArray rnd len \<and> length slug = len
         \<and> length (toHex slug) = 2 * len \<and> fromHex (toHex slug) = slug
         \<and> customData (m_metadata (saveAs_prepare rnd d)) RandomSlug = Some (toHex slug)
         \<and> performSave md5 N io writer (realFilePath fs path) action backupFilePath (saveAs_prepare rnd d)
             = Some (ok, err, d3)
         \<and> customData (m_metadata d3) RandomSlug = Some (toHex slug)
         \<and> saveAs md5 N fs io writer rnd path action backupFilePath d = Some (ok, err, d')
         \<and> customData (m_metadata d') RandomSlug = Some (toHex slug)
         \<and> (\<forall>k n. 64 \<le> n \<and> n \<le> 512 \<longrightarrow>
               card {x. x < 449 * k \<and>
                 (\<exists>bs. customData (m_metadata (saveAs_prepare (rnd\<lparr>draw := x\<rparr>) d)) RandomSlug
                         = Some (toHex bs) \<and> length bs = n)} = k)"
proof -
  from assms(2) obtain k where k: "key (m_data d) = Some k" using isInitialized_key by blast
  have s: "saveAs md5 N fs io writer rnd path action backupFilePath d
             = saveAs_write md5 N fs io writer rnd path action backupFilePath d"
    using assms by (rule saveAs_reaches_write)
  from saveAs_write_frame [OF k, of md5 N io writer fs path action backupFilePath rnd]
  obtain ok err d3 d' where
    p: "performSave md5 N io writer (realFilePath fs path) action backupFilePath (saveAs_prepare rnd d)
          = Some (ok, err, d3)"
    and w: "saveAs_write md5 N fs io writer rnd path action backupFilePath d = Some (ok, err, d')"
    and m3: "m_metadata d3 = m_metadata (saveAs_prepare rnd d)"
    and m: "m_metadata d' = m_metadata (saveAs_prepare rnd d)"
    by blast
  have b: "64 \<le> randomUIntRange rnd 64 512 \<and> randomUIntRange rnd 64 512 \<le> 512"
    by (rule randomUIntRange_bounds) simp
  have u: "\<forall>k n. 64 \<le> n \<and> n \<le> 512 \<longrightarrow>
               card {x. x < 449 * k \<and>
                 (\<exists>bs. customData (m_metadata (saveAs_prepare (rnd\<lparr>draw := x\<rparr>) d)) RandomSlug
                         = Some (toHex bs) \<and> length bs = n)} = k"
    using slug_length_uniform by blast
  show ?thesis
    using p w m3 m s b u by (simp add: length_toHex length_randomArray fromHex_toHex)
qed

text \<open>
  With the draw 0 the slug of \<open>opened_db\<close>'s save has 64 bytes, 128 characters; with the
  draw 448 it has 512 bytes, 1024 characters; the draw 1000 answers the length 166; and
  of the 1347 draws below \<open>449 * 3\<close> exactly three store a slug of 512 bytes.
\<close>

theorem saveAs_random_slug_witness:
  "randomUIntRange toy_rnd 64 512 = 64
   \<and> randomUIntRange (toy_rnd\<lparr>draw := 448\<rparr>) 64 512 = 512
   \<and> randomUIntRange (toy_rnd\<lparr>draw := 1000\<rparr>) 64 512 = 166
   \<and> (\<exists>ok err d'. saveAs toy_md5 4 (toy_fs (Some toy_file)) toy_io toy_writer toy_rnd toy_path Atomic None
                opened_db = Some (ok, err, d')
        \<and> customData (m_metadata d') RandomSlug = Some (toHex (randomArray toy_rnd 64))
        \<and> length (randomArray toy_rnd 64) = 64
        \<and> length (toHex (randomArray toy_rnd 64)) = 128
        \<and> fromHex (toHex (randomArray toy_rnd 64)) = randomArray toy_rnd 64)
   \<and> (\<exists>ok err d'. saveAs toy_md5 4 (toy_fs (Some toy_file)) toy_io toy_writer (toy_rnd\<lparr>draw := 448\<rparr>)
                toy_path Atomic None opened_db = Some (ok, err, d')
        \<and> customData (m_metadata d') RandomSlug = Some (toHex (randomArray (toy_rnd\<lparr>draw := 448\<rparr>) 512))
        \<and> length (randomArray (toy_rnd\<lparr>draw := 448\<rparr>) 512) = 512
        \<and> length (toHex (randomArray (toy_rnd\<lparr>draw := 448\<rparr>) 512)) = 1024)
   \<and> card {x. x < 449 * 3 \<and>
         (\<exists>bs. customData (m_metadata (saveAs_prepare (toy_rnd\<lparr>draw := x\<rparr>) opened_db)) RandomSlug
                 = Some (toHex bs) \<and> length bs = 512)} = 3"
proof -
  have free: "\<not> isSaving opened_db" by (simp add: isSaving_def opened_db_simps)
  have lo: "randomUIntRange toy_rnd 64 512 = 64" by (simp add: randomUIntRange_def toy_rnd_def)
  have hi: "randomUIntRange (toy_rnd\<lparr>draw := 448\<rparr>) 64 512 = 512" by (simp add: randomUIntRange_def)
  have mid: "randomUIntRange (toy_rnd\<lparr>draw := 1000\<rparr>) 64 512 = 166" by (simp add: randomUIntRange_def)
  from saveAs_random_slug [where io = toy_io and writer = toy_writer and action = Atomic
        and backupFilePath = None and rnd = toy_rnd,
      OF free opened_db_initialized toy_check_passes]
  have first: "\<exists>ok err d'. saveAs toy_md5 4 (toy_fs (Some toy_file)) toy_io toy_writer toy_rnd toy_path Atomic None
                opened_db = Some (ok, err, d')
        \<and> customData (m_metadata d') RandomSlug = Some (toHex (randomArray toy_rnd 64))
        \<and> length (randomArray toy_rnd 64) = 64
        \<and> length (toHex (randomArray toy_rnd 64)) = 128
        \<and> fromHex (toHex (randomArray toy_rnd 64)) = randomArray toy_rnd 64"
    using lo by auto
  from saveAs_random_slug [where io = toy_io and writer = toy_writer and action = Atomic
        and backupFilePath = None and rnd = "toy_rnd\<lparr>draw := 448\<rparr>",
      OF free opened_db_initialized toy_check_passes]
  have last: "\<exists>ok err d'. saveAs toy_md5 4 (toy_fs (Some toy_file)) toy_io toy_writer (toy_rnd\<lparr>draw := 448\<rparr>)
                toy_path Atomic None opened_db = Some (ok, err, d')
        \<and> customData (m_metadata d') RandomSlug = Some (toHex (randomArray (toy_rnd\<lparr>draw := 448\<rparr>) 512))
        \<and> length (randomArray (toy_rnd\<lparr>draw := 448\<rparr>) 512) = 512
        \<and> length (toHex (randomArray (toy_rnd\<lparr>draw := 448\<rparr>) 512)) = 1024"
    using hi by auto
  from saveAs_random_slug [where io = toy_io and writer = toy_writer and action = Atomic
        and backupFilePath = None and rnd = toy_rnd,
      OF free opened_db_initialized toy_check_passes]
  have "\<forall>k n. 64 \<le> n \<and> n \<le> 512 \<longrightarrow>
               card {x. x < 449 * k \<and>
                 (\<exists>bs. customData (m_metadata (saveAs_prepare (toy_rnd\<lparr>draw := x\<rparr>) opened_db)) RandomSlug
                         = Some (toHex bs) \<and> length bs = n)} = k"
    by blast
  from this [rule_format, where k = 3 and n = 512]
  have "card {x. x < 449 * 3 \<and>
         (\<exists>bs. customData (m_metadata (saveAs_prepare (toy_rnd\<lparr>draw := x\<rparr>) opened_db)) RandomSlug
                 = Some (toHex bs) \<and> length bs = 512)} = 3"
    by simp
  with lo hi mid first last show ?thesis by blast
qed

end
